theory Spec2Isabelle
  imports Main "HOL-Library.Word" "HOL-Library.Sublist"
begin

section \<open>JavaScript strings\<close>

text \<open>
  A JavaScript string is a sequence of UTF-16 code units, and the regular expressions of
  the service (written without the \<open>u\<close> flag) work on code units.  Every character that
  the patterns name lies in the Basic Multilingual Plane, so it is one code unit.
\<close>

type_synonym jschar = "16 word"
type_synonym jsstring = "jschar list"

text \<open>An ASCII literal, read as code units.\<close>

definition ascii :: "string \<Rightarrow> jsstring" where
  "ascii s = map (\<lambda>c. of_nat (of_char c)) s"

text \<open>
  The characters matched by \<open>\s\<close> and stripped by \<open>String.prototype.trim\<close>: ECMAScript's
  WhiteSpace (TAB, VT, FF, SP, NBSP, ZWNBSP and the Unicode space separators) together
  with its LineTerminator (LF, CR, LS, PS).
\<close>

definition isWhiteSpace :: "jschar \<Rightarrow> bool" where
  "isWhiteSpace c \<longleftrightarrow>
     c = 0x0009 \<or> c = 0x000A \<or> c = 0x000B \<or> c = 0x000C \<or> c = 0x000D \<or> c = 0x0020 \<or>
     c = 0x00A0 \<or> c = 0x1680 \<or> (0x2000 \<le> c \<and> c \<le> 0x200A) \<or> c = 0x2028 \<or>
     c = 0x2029 \<or> c = 0x202F \<or> c = 0x205F \<or> c = 0x3000 \<or> c = 0xFEFF"

definition trim :: "jsstring \<Rightarrow> jsstring" where
  "trim s = rev (dropWhile isWhiteSpace (rev (dropWhile isWhiteSpace s)))"

section \<open>Regular expressions\<close>

text \<open>
  The two patterns of the service use literal characters, character classes, an optional
  character, a capturing group around a lazy star of a class, a greedy plus of a class, a
  positive look-ahead over alternatives and the end-of-input assertion.  A pattern is the
  sequence of its nodes.
\<close>

datatype node =
    Lit jschar
  | Class "jschar \<Rightarrow> bool"
  | Opt jschar
  | LazyGroup "jschar \<Rightarrow> bool"
  | Plus "jschar \<Rightarrow> bool"
  | LookAhead "node list list"
  | EndOfInput

text \<open>
  The backtracking matcher, at one start position: \<open>rmatch r s\<close> matches the pattern \<open>r\<close>
  against a prefix of \<open>s\<close>, trying the choices in ECMAScript's priority order (a lazy star
  tries the continuation before it takes a character, a greedy plus and an optional character
  take the character first), and returns the captures of the groups in order together with
  the unread rest of \<open>s\<close>.  None of the nodes looks behind the start position, so the text
  before it plays no part.  The look-aheads of the two patterns hold no group, so a
  look-ahead adds no capture.
\<close>

fun rmatch :: "node list \<Rightarrow> jsstring \<Rightarrow> (jsstring list \<times> jsstring) option" where
  "rmatch [] s = Some ([], s)"
| "rmatch (Lit c # r) [] = None"
| "rmatch (Lit c # r) (x # xs) = (if x = c then rmatch r xs else None)"
| "rmatch (Class p # r) [] = None"
| "rmatch (Class p # r) (x # xs) = (if p x then rmatch r xs else None)"
| "rmatch (Opt c # r) [] = rmatch r []"
| "rmatch (Opt c # r) (x # xs) =
     (if x = c then
        (case rmatch r xs of Some m \<Rightarrow> Some m | None \<Rightarrow> rmatch r (x # xs))
      else rmatch r (x # xs))"
| "rmatch (LazyGroup p # r) [] =
     (case rmatch r [] of Some (caps, rest) \<Rightarrow> Some ([] # caps, rest) | None \<Rightarrow> None)"
| "rmatch (LazyGroup p # r) (x # xs) =
     (case rmatch r (x # xs) of
        Some (caps, rest) \<Rightarrow> Some ([] # caps, rest)
      | None \<Rightarrow>
          if p x then
            (case rmatch (LazyGroup p # r) xs of
               Some (c # caps, rest) \<Rightarrow> Some ((x # c) # caps, rest)
             | _ \<Rightarrow> None)
          else None)"
| "rmatch (Plus p # r) [] = None"
| "rmatch (Plus p # r) (x # xs) =
     (if p x then
        (case rmatch (Plus p # r) xs of Some m \<Rightarrow> Some m | None \<Rightarrow> rmatch r xs)
      else None)"
| "rmatch (LookAhead alts # r) s =
     (if list_ex (\<lambda>alt. rmatch alt s \<noteq> None) alts then rmatch r s else None)"
| "rmatch (EndOfInput # r) s = (if s = [] then rmatch r s else None)"

text \<open>
  The match object of \<open>RegExp.prototype.exec\<close>: \<open>whole\<close> is \<open>match[0]\<close>, \<open>groups\<close> holds
  \<open>match[1]\<close>, \<open>match[2]\<close>, ..., and \<open>endIndex\<close> is the index after the match, which a
  global pattern stores in its \<open>lastIndex\<close>.
\<close>

record regmatch =
  index :: nat
  whole :: jsstring
  groups :: "jsstring list"
  endIndex :: nat

text \<open>The leftmost match in the suffix \<open>s\<close> of the text, which starts at index \<open>i\<close>.\<close>

fun searchFrom :: "node list \<Rightarrow> jsstring \<Rightarrow> nat \<Rightarrow> regmatch option" where
  "searchFrom r [] i =
     (case rmatch r [] of
        Some (caps, rest) \<Rightarrow> Some \<lparr>index = i, whole = [], groups = caps, endIndex = i\<rparr>
      | None \<Rightarrow> None)"
| "searchFrom r (x # xs) i =
     (case rmatch r (x # xs) of
        Some (caps, rest) \<Rightarrow>
          Some \<lparr>index = i, whole = take (length (x # xs) - length rest) (x # xs),
                groups = caps, endIndex = i + (length (x # xs) - length rest)\<rparr>
      | None \<Rightarrow> searchFrom r xs (Suc i))"

text \<open>
  \<open>regex.exec(text)\<close> for a pattern whose \<open>lastIndex\<close> is \<open>lastIndex\<close>: it fails when
  \<open>lastIndex\<close> is beyond the text and searches from \<open>lastIndex\<close> otherwise.
\<close>

definition regexExec :: "node list \<Rightarrow> jsstring \<Rightarrow> nat \<Rightarrow> regmatch option" where
  "regexExec r text lastIndex =
     (if length text < lastIndex then None else searchFrom r (drop lastIndex text) lastIndex)"

text \<open>\<open>match[i]\<close>, which is \<open>undefined\<close> (here \<open>None\<close>) when the match has no such group.\<close>

definition matchGroup :: "regmatch \<Rightarrow> nat \<Rightarrow> jsstring option" where
  "matchGroup m i =
     (if i = 0 then Some (whole m)
      else if i \<le> length (groups m) then Some (groups m ! (i - 1))
      else None)"

text \<open>The number of capturing groups of a pattern.\<close>

fun ngroups :: "node list \<Rightarrow> nat" where
  "ngroups [] = 0"
| "ngroups (LazyGroup p # r) = Suc (ngroups r)"
| "ngroups (n # r) = ngroups r"

text \<open>
  \<open>s.replace(r, rep)\<close> with a pattern that is not global and a replacement text without
  dollar signs: the first match is replaced.
\<close>

definition replaceFirst :: "node list \<Rightarrow> jsstring \<Rightarrow> jsstring \<Rightarrow> jsstring" where
  "replaceFirst r rep s =
     (case regexExec r s 0 of
        None \<Rightarrow> s
      | Some m \<Rightarrow> take (index m) s @ rep @ drop (endIndex m) s)"

section \<open>The service\<close>

text \<open>
  The errors that a call may throw: \<open>Error\<close> with its message, a TypeError (a method
  called on \<open>undefined\<close>), and the rejections of the external service, which the code
  never inspects.
\<close>

datatype error =
    Error jsstring
  | TypeError
  | ServiceError nat

text \<open>
  \<open>try { body } catch (error) { handler }\<close>, where \<open>Inl\<close> is a thrown error or a rejected
  promise: the handler runs on every error of the body.
\<close>

definition tryCatch :: "error + 'a \<Rightarrow> (error \<Rightarrow> error + 'a) \<Rightarrow> error + 'a" where
  "tryCatch body handler = (case body of Inl e \<Rightarrow> handler e | Inr v \<Rightarrow> Inr v)"

subsection \<open>The generative service\<close>

text \<open>
  The client \<open>ai.models.generateContent\<close> belongs to an external package.  It is a parameter
  of the model: a function from the request to a rejection or a response.  Of the response
  the service reads \<open>text\<close> (the field \<open>text'\<close> here), which may be \<open>undefined\<close> in a reply
  without text, and \<open>candidates?.[0]?.groundingMetadata?.groundingChunks\<close>, every step of
  which may be \<open>undefined\<close>.  The chunks are read at the type \<open>any\<close> (line 131), so a chunk
  may itself be \<open>null\<close> or \<open>undefined\<close>: that is the chunk \<open>None\<close>.
\<close>

record webSource =
  uri :: "jsstring option"
  title :: "jsstring option"

record groundingChunk =
  web :: "webSource option"

record groundingMetadata =
  groundingChunks :: "groundingChunk option list option"

record candidate =
  groundingMetadata :: "groundingMetadata option"

record response =
  text' :: "jsstring option"
  candidates :: "candidate list option"

datatype config = Temperature nat | Tools "string list"

record request =
  model :: jsstring
  contents :: jsstring
  config :: config

type_synonym service = "request \<Rightarrow> error + response"

subsection \<open>The types of the repository\<close>

record groundingSource =
  uri :: jsstring
  title :: jsstring

record article =
  title :: jsstring
  summary :: jsstring
  source :: jsstring

record filterOptions =
  subTopic :: jsstring

subsection \<open>translateKeywords\<close>

text \<open>
  The text of lines 17 and 18 before the keywords: the instruction to translate the Chinese
  keywords into English and to return them separated by commas, a line break, four spaces
  and the label of the keywords with a full-width colon.
\<close>

definition translationInstruction :: jsstring where
  "translationInstruction =
     [0x5C06, 0x4EE5, 0x4E0B, 0x4E2D, 0x6587, 0x5173, 0x952E, 0x8BCD, 0x7FFB, 0x8BD1, 0x6210,
     0x82F1, 0x6587, 0x3002, 0x8BF7, 0x53EA, 0x8FD4, 0x56DE, 0x7FFB, 0x8BD1, 0x540E, 0x7684,
     0x82F1, 0x6587, 0x5173, 0x952E, 0x8BCD, 0xFF0C, 0x5E76, 0x7528, 0x9017, 0x53F7, 0x5206,
     0x9694, 0x3002, 0x000A] @ ascii ''    '' @ [0x4E2D, 0x6587, 0x5173, 0x952E, 0x8BCD,
     0xFF1A]"

text \<open>The request of lines 20 to 26.\<close>

definition translationRequest :: "jsstring \<Rightarrow> request" where
  "translationRequest keywords =
     \<lparr>model = ascii ''gemini-2.5-flash'', contents = translationInstruction @ keywords,
      config = Temperature 0\<rparr>"

text \<open>The pattern \<open>\.$\<close> of line 29: a full stop at the end of the input.\<close>

definition finalPeriodRegex :: "node list" where
  "finalPeriodRegex = [Lit 0x002E, EndOfInput]"

text \<open>\<open>x.trim()\<close> of a value that may be \<open>undefined\<close>: a TypeError in that case.\<close>

definition trimOf :: "jsstring option \<Rightarrow> error + jsstring" where
  "trimOf x = (case x of None \<Rightarrow> Inl TypeError | Some s \<Rightarrow> Inr (trim s))"

text \<open>
  The \<open>try\<close> block, lines 17 to 29: the call may be rejected, and \<open>response.text.trim()\<close>
  throws a TypeError on a reply without text.
\<close>

definition translateBody :: "service \<Rightarrow> jsstring \<Rightarrow> error + jsstring" where
  "translateBody ai keywords =
     (case ai (translationRequest keywords) of
        Inl e \<Rightarrow> Inl e
      | Inr response \<Rightarrow>
          (case trimOf (text' response) of
             Inl e \<Rightarrow> Inl e
           | Inr trimmed \<Rightarrow> Inr (replaceFirst finalPeriodRegex [] trimmed)))"

text \<open>
  Lines 15 to 34: the handler of line 30 returns the empty text on every error of the block.
  The warning that the handler logs is not part of the model.
\<close>

definition translateKeywords :: "service \<Rightarrow> jsstring \<Rightarrow> error + jsstring" where
  "translateKeywords ai keywords = tryCatch (translateBody ai keywords) (\<lambda>error. Inr [])"

subsection \<open>parseArticleResponse\<close>

text \<open>The field labels: U+6807 U+9898 (title), U+6458 U+8981 (summary), U+6765 U+6E90 (source).\<close>

definition isColon :: "jschar \<Rightarrow> bool" where
  "isColon c \<longleftrightarrow> c = 0xFF1A \<or> c = 0x003A"

definition anyChar :: "jschar \<Rightarrow> bool" where
  "anyChar c \<longleftrightarrow> isWhiteSpace c \<or> \<not> isWhiteSpace c"

text \<open>
  The pattern of line 51: title label, colon, lazy group, summary label, colon, lazy group,
  source label, colon, lazy group, look-ahead for a title label with its colon or for the end
  of the input.
\<close>

definition articleRegex :: "node list" where
  "articleRegex =
     [Lit 0x6807, Lit 0x9898, Class isColon, LazyGroup anyChar,
      Lit 0x6458, Lit 0x8981, Class isColon, LazyGroup anyChar,
      Lit 0x6765, Lit 0x6E90, Class isColon, LazyGroup anyChar,
      LookAhead [[Lit 0x6807, Lit 0x9898, Class isColon], [EndOfInput]]]"

text \<open>The class \<open>[^\s"'\)<>]\<close> of line 61.\<close>

definition isUrlChar :: "jschar \<Rightarrow> bool" where
  "isUrlChar c \<longleftrightarrow>
     \<not> (isWhiteSpace c \<or> c = 0x0022 \<or> c = 0x0027 \<or> c = 0x0029 \<or> c = 0x003C \<or> c = 0x003E)"

text \<open>The pattern of line 61: \<open>http\<close>, an optional \<open>s\<close>, \<open>://\<close> and one or more class characters.\<close>

definition urlRegex :: "node list" where
  "urlRegex =
     [Lit 0x0068, Lit 0x0074, Lit 0x0074, Lit 0x0070, Opt 0x0073,
      Lit 0x003A, Lit 0x002F, Lit 0x002F, Plus isUrlChar]"

text \<open>The part of the pattern after the optional \<open>s\<close>.\<close>

definition urlTail :: "node list" where
  "urlTail = [Lit 0x003A, Lit 0x002F, Lit 0x002F, Plus isUrlChar]"

text \<open>
  \<open>source.match(...)\<close> with a pattern that is not global searches from index 0;
  \<open>urlMatch[0]\<close> is the matched text.
\<close>

definition urlMatch :: "jsstring \<Rightarrow> regmatch option" where
  "urlMatch src = regexExec urlRegex src 0"

text \<open>Lines 59 to 64: the first URL of the trimmed source text, or that text itself.\<close>

definition extractSource :: "jsstring \<Rightarrow> jsstring" where
  "extractSource src = (case urlMatch src of Some m \<Rightarrow> whole m | None \<Rightarrow> src)"

text \<open>
  The body of the loop, lines 55 to 68, for one match: the article that is pushed, if any.
  A string is truthy when it is not empty.
\<close>

definition processMatch :: "regmatch \<Rightarrow> error + article option" where
  "processMatch m =
     (case trimOf (matchGroup m 1) of
        Inl e \<Rightarrow> Inl e
      | Inr title' \<Rightarrow>
          (case trimOf (matchGroup m 2) of
             Inl e \<Rightarrow> Inl e
           | Inr summary' \<Rightarrow>
               (case trimOf (matchGroup m 3) of
                  Inl e \<Rightarrow> Inl e
                | Inr src \<Rightarrow>
                    (let source' = extractSource src in
                     if title' \<noteq> [] \<and> summary' \<noteq> [] \<and> source' \<noteq> []
                     then Inr (Some \<lparr>title = title', summary = summary', source = source'\<rparr>)
                     else Inr None))))"

text \<open>
  The loop of lines 54 to 69.  Its state is the \<open>lastIndex\<close> of the pattern and the list of
  articles; \<open>None\<close> stands for a loop that does not end, \<open>Inl\<close> for a thrown error.
\<close>

partial_function (option) parseLoop ::
  "jsstring \<Rightarrow> nat \<Rightarrow> article list \<Rightarrow> (error + article list) option" where
  "parseLoop text lastIndex articles =
     (case regexExec articleRegex text lastIndex of
        None \<Rightarrow> Some (Inr articles)
      | Some m \<Rightarrow>
          (case processMatch m of
             Inl e \<Rightarrow> Some (Inl e)
           | Inr None \<Rightarrow> parseLoop text (endIndex m) articles
           | Inr (Some a) \<Rightarrow> parseLoop text (endIndex m) (articles @ [a])))"

declare parseLoop.simps [code]

definition parseArticleResponse :: "jsstring \<Rightarrow> (error + article list) option" where
  "parseArticleResponse text = parseLoop text 0 []"

subsection \<open>The grounding sources\<close>

text \<open>\<open>x || ''\<close> for a text that may be \<open>undefined\<close>: the empty text is falsy as well.\<close>

definition orEmpty :: "jsstring option \<Rightarrow> jsstring" where
  "orEmpty x = (case x of None \<Rightarrow> [] | Some s \<Rightarrow> s)"

text \<open>Line 129.  An array is truthy, so only \<open>undefined\<close> gives the empty array.\<close>

definition groundingChunksOf :: "response \<Rightarrow> groundingChunk option list" where
  "groundingChunksOf response =
     (case candidates response of
        None \<Rightarrow> []
      | Some [] \<Rightarrow> []
      | Some (c # cs) \<Rightarrow>
          (case groundingMetadata c of
             None \<Rightarrow> []
           | Some g \<Rightarrow> (case groundingChunks g of None \<Rightarrow> [] | Some chunks \<Rightarrow> chunks)))"

text \<open>
  Lines 131 to 134, the function that is mapped: \<open>chunk.web\<close> throws a TypeError when the chunk
  is \<open>null\<close> or \<open>undefined\<close>; otherwise the source holds \<open>chunk.web?.uri || ''\<close> and
  \<open>chunk.web?.title || ''\<close>.
\<close>

definition toSource :: "groundingChunk option \<Rightarrow> error + groundingSource" where
  "toSource chunk =
     (case chunk of
        None \<Rightarrow> Inl TypeError
      | Some c \<Rightarrow>
          Inr \<lparr>groundingSource.uri =
                 orEmpty (case web c of None \<Rightarrow> None | Some w \<Rightarrow> webSource.uri w),
               groundingSource.title =
                 orEmpty (case web c of None \<Rightarrow> None | Some w \<Rightarrow> webSource.title w)\<rparr>)"

text \<open>\<open>Array.prototype.map\<close> with that function: the first error ends the map.\<close>

fun mapToSource :: "groundingChunk option list \<Rightarrow> error + groundingSource list" where
  "mapToSource [] = Inr []"
| "mapToSource (chunk # chunks) =
     (case toSource chunk of
        Inl e \<Rightarrow> Inl e
      | Inr s \<Rightarrow> (case mapToSource chunks of Inl e \<Rightarrow> Inl e | Inr ss \<Rightarrow> Inr (s # ss)))"

text \<open>Lines 130 to 135: the sources of the chunks, without those whose uri is empty.\<close>

definition sourcesOf :: "groundingChunk option list \<Rightarrow> error + groundingSource list" where
  "sourcesOf chunks =
     (case mapToSource chunks of
        Inl e \<Rightarrow> Inl e
      | Inr ss \<Rightarrow> Inr (filter (\<lambda>source. groundingSource.uri source \<noteq> []) ss))"

text \<open>
  A JavaScript \<open>Map\<close> keeps its entries in the order in which their keys were first set.
  \<open>mapSet\<close> is \<open>Map.prototype.set\<close>: the value of a key that is present is replaced where
  it stands, a new key goes to the end.  \<open>newMap\<close> is the constructor, which sets the entries
  one after the other, and \<open>mapValues\<close> is \<open>Array.from(m.values())\<close>.
\<close>

fun mapSet :: "('k \<times> 'v) list \<Rightarrow> 'k \<Rightarrow> 'v \<Rightarrow> ('k \<times> 'v) list" where
  "mapSet [] k v = [(k, v)]"
| "mapSet ((k', v') # m) k v = (if k' = k then (k', v) # m else (k', v') # mapSet m k v)"

definition newMap :: "('k \<times> 'v) list \<Rightarrow> ('k \<times> 'v) list" where
  "newMap entries = foldl (\<lambda>m (k, v). mapSet m k v) [] entries"

definition mapValues :: "('k \<times> 'v) list \<Rightarrow> 'v list" where
  "mapValues m = map snd m"

text \<open>Line 138.\<close>

definition uniqueSources :: "groundingSource list \<Rightarrow> groundingSource list" where
  "uniqueSources srcs = mapValues (newMap (map (\<lambda>item. (groundingSource.uri item, item)) srcs))"

text \<open>Lines 130 to 138: the sources of the chunks, then without duplicates.\<close>

definition uniqueSourcesOf :: "groundingChunk option list \<Rightarrow> error + groundingSource list" where
  "uniqueSourcesOf chunks =
     (case sourcesOf chunks of Inl e \<Rightarrow> Inl e | Inr srcs \<Rightarrow> Inr (uniqueSources srcs))"

subsection \<open>fetchDigitalEconomyArticles\<close>

text \<open>
  Line 89 before the combined keywords: the clause numbered 4, headed \<open>(Topic Focus)\<close>, up
  to the opening quotation mark U+201C.
\<close>

definition topicFocusPrefix :: jsstring where
  "topicFocusPrefix =
     ascii ''4.  **'' @ [0x4E3B, 0x9898, 0x805A, 0x7126] @ ascii '' (Topic Focus):** ''
     @ [0x6587, 0x7AE0, 0x5185, 0x5BB9, 0x5FC5, 0x987B, 0x805A, 0x7126, 0x4E8E, 0x4EE5, 0x4E0B,
     0x4E00, 0x4E2A, 0x6216, 0x591A, 0x4E2A, 0x4E3B, 0x9898, 0xFF1A, 0x201C]"

text \<open>
  Line 89 after the combined keywords: the closing quotation mark U+201D and the ideographic
  full stop U+3002.
\<close>

definition topicFocusSuffix :: jsstring where
  "topicFocusSuffix =
     [0x201D, 0x3002]"

text \<open>
  Lines 82 to 90: the topic-focus instruction.  The call of \<open>translateKeywords\<close> is awaited
  inside the \<open>try\<close> block, so a rejection of it would leave the block.
\<close>

definition topicFocusInstruction :: "service \<Rightarrow> filterOptions \<Rightarrow> error + jsstring" where
  "topicFocusInstruction ai filters =
     (if subTopic filters \<noteq> [] then
        (case translateKeywords ai (subTopic filters) of
           Inl e \<Rightarrow> Inl e
         | Inr translatedKeywords \<Rightarrow>
             (let combinedKeywords =
                    (if translatedKeywords \<noteq> []
                     then subTopic filters @ ascii '', '' @ translatedKeywords
                     else subTopic filters)
              in Inr (topicFocusPrefix @ combinedKeywords @ topicFocusSuffix)))
      else Inr [])"

text \<open>
  The template of lines 92 to 117, cut at its clauses.  Lines 92 to 97: the line break after
  the opening backquote, the task and the heading of the core instructions.
\<close>

definition promptTask :: jsstring where
  "promptTask =
     [0x000A] @ ascii ''**'' @ [0x4EFB, 0x52A1, 0xFF1A] @ ascii ''**'' @ [0x000A, 0x4E3A,
     0x6211, 0x67E5, 0x627E, 0x5173, 0x4E8E, 0x201C, 0x6570, 0x5B57, 0x7ECF, 0x6D4E, 0x201D,
     0x7684, 0x6700, 0x65B0, 0x3001, 0x6700, 0x6743, 0x5A01, 0x7684, 0x7814, 0x7A76, 0x8D44,
     0x6599, 0x3002, 0x000A, 0x000A] @ ascii ''**'' @ [0x6838, 0x5FC3, 0x6307, 0x4EE4]
     @ ascii '' ('' @ [0x5FC5, 0x987B, 0x4E25, 0x683C, 0x9075, 0x5B88] @ ascii ''):**''
     @ [0x000A, 0x000A]"

text \<open>Line 98: clause 1, \<open>(Scope)\<close>.\<close>

definition scopeClause :: jsstring where
  "scopeClause =
     ascii ''1.  **'' @ [0x89C6, 0x89D2, 0x5C42, 0x7EA7] @ ascii '' (Scope):** '' @ [0x7ED3,
     0x679C, 0x5FC5, 0x987B, 0x662F, 0x5B8F, 0x89C2, 0x5C42, 0x9762, 0x7684, 0x3002, 0x53EA,
     0x5173, 0x6CE8, 0x56FD, 0x5BB6, 0x7EA7, 0x653F, 0x7B56, 0x3001, 0x8DE8, 0x56FD, 0x7814,
     0x7A76, 0x6216, 0x91CD, 0x8981, 0x7684, 0x5168, 0x7403, 0x002F, 0x5168, 0x56FD, 0x6027,
     0x884C, 0x4E1A, 0x8D8B, 0x52BF, 0x3002] @ ascii ''**'' @ [0x4E25, 0x683C, 0x6392, 0x9664]
     @ ascii ''**'' @ [0x4EFB, 0x4F55, 0x53EA, 0x5173, 0x6CE8, 0x7279, 0x5B9A, 0x7701, 0x3001,
     0x5E02, 0x6216, 0x5730, 0x533A, 0x7684, 0x5185, 0x5BB9, 0x3002]"

text \<open>Line 100: clause 2, \<open>(Content-Type)\<close>.\<close>

definition contentTypeClause :: jsstring where
  "contentTypeClause =
     ascii ''2.  **'' @ [0x5185, 0x5BB9, 0x7C7B, 0x578B] @ ascii '' (Content-Type):** ''
     @ [0x7ED3, 0x679C] @ ascii ''**'' @ [0x5FC5, 0x987B, 0x4EE5, 0x5B66, 0x672F, 0x8BBA,
     0x6587, 0xFF08, 0x7279, 0x522B, 0x662F] @ ascii ''SCI'' @ [0x6536, 0x5F55, 0x7684, 0xFF09,
     0x548C, 0x6DF1, 0x5EA6, 0x884C, 0x4E1A, 0x62A5, 0x544A, 0x4E3A, 0x4E3B, 0x4F53]
     @ ascii ''**'' @ [0x3002, 0x65B0, 0x95FB, 0x6587, 0x7AE0, 0x548C, 0x653F, 0x5E9C, 0x51FA,
     0x7248, 0x7269, 0x53EF, 0x4EE5, 0x4F5C, 0x4E3A, 0x8865, 0x5145, 0xFF0C, 0x4F46, 0x4E0D,
     0x662F, 0x4E3B, 0x8981, 0x90E8, 0x5206, 0x3002]"

text \<open>Line 102: clause 3, \<open>(Language Balance)\<close>.\<close>

definition languageBalanceClause :: jsstring where
  "languageBalanceClause =
     ascii ''3.  **'' @ [0x8BED, 0x8A00, 0x5747, 0x8861] @ ascii '' (Language Balance):** ''
     @ [0x6700, 0x7EC8, 0x8FD4, 0x56DE, 0x7684, 0x7ED3, 0x679C, 0x4E2D, 0xFF0C, 0x4E2D, 0x6587,
     0x6587, 0x732E, 0x548C, 0x82F1, 0x6587, 0x6587, 0x732E, 0x7684, 0x6570, 0x91CF]
     @ ascii ''**'' @ [0x5FC5, 0x987B, 0x5927, 0x81F4, 0x5404, 0x5360, 0x4E00, 0x534A]
     @ ascii '' (50/50)**'' @ [0x3002]"

text \<open>
  Line 106: clause 5, \<open>(Timeframe)\<close>, before the start date, between the two dates, and
  after the end date.
\<close>

definition timeframePrefix :: jsstring where
  "timeframePrefix =
     ascii ''5.  **'' @ [0x65F6, 0x95F4, 0x8303, 0x56F4] @ ascii '' (Timeframe):** ''
     @ [0x53D1, 0x5E03, 0x65E5, 0x671F, 0x5FC5, 0x987B, 0x5728, 0x0020]"

definition timeframeMiddle :: jsstring where
  "timeframeMiddle =
     [0x0020, 0x548C, 0x0020]"

definition timeframeSuffix :: jsstring where
  "timeframeSuffix =
     [0x0020, 0x4E4B, 0x95F4, 0x3002]"

text \<open>Line 108: clause 6, \<open>(Sorting)\<close>.\<close>

definition sortingClause :: jsstring where
  "sortingClause =
     ascii ''6.  **'' @ [0x6392, 0x5E8F, 0x6807, 0x51C6] @ ascii '' (Sorting):** '' @ [0x8BF7,
     0x6839, 0x636E, 0x6743, 0x5A01, 0x6027, 0x548C, 0x4FE1, 0x606F, 0x91CF, 0x5BF9, 0x6240,
     0x6709, 0x7ED3, 0x679C, 0x8FDB, 0x884C, 0x7EFC, 0x5408, 0x6392, 0x5E8F, 0xFF0C, 0x5C06,
     0x6700, 0x76F8, 0x5173, 0x7684, 0x3001, 0x8D28, 0x91CF, 0x6700, 0x9AD8, 0x7684, 0x7ED3,
     0x679C, 0x653E, 0x5728, 0x6700, 0x524D, 0x9762, 0x3002]"

text \<open>
  Lines 110 to 117: the output format, with the three labelled lines of the template and the
  final line break.
\<close>

definition outputFormatClause :: jsstring where
  "outputFormatClause =
     ascii ''**'' @ [0x8F93, 0x51FA, 0x683C, 0x5F0F] @ ascii '' (Output Format):**'' @ [0x000A,
     0x8BF7, 0x4E25, 0x683C, 0x6309, 0x7167, 0x4EE5, 0x4E0B, 0x683C, 0x5F0F, 0x4E3A, 0x6BCF,
     0x7BC7, 0x6587, 0x7AE0, 0x6216, 0x8BBA, 0x6587, 0x63D0, 0x4F9B, 0x4FE1, 0x606F, 0xFF0C,
     0x4E0D, 0x8981, 0x6DFB, 0x52A0, 0x4EFB, 0x4F55, 0x4ECB, 0x7ECD, 0x6027, 0x6587, 0x5B57,
     0x3001, 0x7F16, 0x53F7, 0x6216, 0x603B, 0x7ED3, 0x3002, 0x000A, 0x6807, 0x9898, 0xFF1A,
     0x005B, 0x6587, 0x7AE0, 0x6216, 0x8BBA, 0x6587, 0x7684, 0x5B8C, 0x6574, 0x6807, 0x9898,
     0x005D, 0x000A, 0x6458, 0x8981, 0xFF1A, 0x005B, 0x4E00, 0x6BB5, 0x7B80, 0x6D01, 0x7684,
     0x6587, 0x7AE0, 0x6216, 0x8BBA, 0x6587, 0x6458, 0x8981, 0x005D, 0x000A, 0x6765, 0x6E90,
     0xFF1A, 0x005B, 0x6587, 0x7AE0, 0x6216, 0x8BBA, 0x6587, 0x7684, 0x76F4, 0x63A5, 0x7F51,
     0x5740, 0x005D, 0x000A, 0x000A, 0x6BCF, 0x4E2A, 0x6761, 0x76EE, 0x4E4B, 0x95F4, 0x8BF7,
     0x7528, 0x4E00, 0x4E2A, 0x7A7A, 0x884C, 0x5206, 0x9694, 0x3002, 0x000A]"

text \<open>The empty line between two clauses.\<close>

definition blankLine :: jsstring where
  "blankLine =
     [0x000A, 0x000A]"

text \<open>Clause 5 of the template with the two dates in place.\<close>

definition timeframeClause :: "jsstring \<Rightarrow> jsstring \<Rightarrow> jsstring" where
  "timeframeClause startDate endDate =
     timeframePrefix @ startDate @ timeframeMiddle @ endDate @ timeframeSuffix"

text \<open>The template literal of lines 92 to 117.\<close>

definition promptOf :: "jsstring \<Rightarrow> jsstring \<Rightarrow> jsstring \<Rightarrow> jsstring" where
  "promptOf topicFocus startDate endDate =
     promptTask @ scopeClause @ blankLine @ contentTypeClause @ blankLine @
     languageBalanceClause @ blankLine @ topicFocus @ blankLine @
     timeframeClause startDate endDate @ blankLine @ sortingClause @ blankLine @
     outputFormatClause"

text \<open>The request of lines 119 to 125.\<close>

definition articleRequest :: "jsstring \<Rightarrow> request" where
  "articleRequest prompt =
     \<lparr>model = ascii ''gemini-2.5-pro'', contents = prompt, config = Tools [''googleSearch'']\<rparr>"

text \<open>The message of line 144.\<close>

definition fetchFailedMessage :: jsstring where
  "fetchFailedMessage =
     [0x83B7, 0x53D6, 0x6587, 0x7AE0, 0x5931, 0x8D25, 0x3002] @ ascii ''API '' @ [0x53EF,
     0x80FD, 0x4E0D, 0x53EF, 0x7528, 0x6216, 0x8BF7, 0x6C42, 0x5931, 0x8D25, 0x3002]"

text \<open>The result type of line 73.\<close>

record fetchResult =
  articles :: "article list"
  sources :: "groundingSource list"

text \<open>
  What the function reads from outside: the client and the two dates of lines 75 to 80,
  which come from the clock and are formatted as year, month and day.
\<close>

record env =
  ai :: service
  startDate :: jsstring
  endDate :: jsstring

text \<open>Lines 82 to 117: the prompt that is sent, or the error that stops the block before.\<close>

definition buildPrompt :: "env \<Rightarrow> filterOptions \<Rightarrow> error + jsstring" where
  "buildPrompt e filters =
     (case topicFocusInstruction (ai e) filters of
        Inl err \<Rightarrow> Inl err
      | Inr topicFocus \<Rightarrow> Inr (promptOf topicFocus (startDate e) (endDate e)))"

text \<open>
  \<open>regex.exec\<close> reads its argument as a text: \<open>undefined\<close> is read as the nine letters of
  that word.
\<close>

definition textOf :: "jsstring option \<Rightarrow> jsstring" where
  "textOf x = (case x of None \<Rightarrow> ascii ''undefined'' | Some s \<Rightarrow> s)"

text \<open>
  The \<open>try\<close> block, lines 75 to 140.  \<open>None\<close> is a run that does not end, \<open>Some (Inl err)\<close>
  one that leaves the block with the error \<open>err\<close>: the rejection of the call of line 119, or
  the TypeError of line 132 on a chunk that is \<open>null\<close> or \<open>undefined\<close>.
\<close>

definition fetchBody :: "env \<Rightarrow> filterOptions \<Rightarrow> (error + fetchResult) option" where
  "fetchBody e filters =
     (case buildPrompt e filters of
        Inl err \<Rightarrow> Some (Inl err)
      | Inr prompt \<Rightarrow>
          (case ai e (articleRequest prompt) of
             Inl err \<Rightarrow> Some (Inl err)
           | Inr response \<Rightarrow>
               (case parseArticleResponse (textOf (text' response)) of
                  None \<Rightarrow> None
                | Some (Inl err) \<Rightarrow> Some (Inl err)
                | Some (Inr parsed) \<Rightarrow>
                    (case uniqueSourcesOf (groundingChunksOf response) of
                       Inl err \<Rightarrow> Some (Inl err)
                     | Inr unique \<Rightarrow> Some (Inr \<lparr>articles = parsed, sources = unique\<rparr>)))))"

text \<open>
  Lines 73 to 146: the handler of line 142 logs the error and throws the error of line 144.
\<close>

definition fetchDigitalEconomyArticles ::
  "env \<Rightarrow> filterOptions \<Rightarrow> (error + fetchResult) option" where
  "fetchDigitalEconomyArticles e filters =
     (case fetchBody e filters of
        None \<Rightarrow> None
      | Some body \<Rightarrow> Some (tryCatch body (\<lambda>error. Inl (Error fetchFailedMessage))))"

section \<open>Notions of the specification\<close>

text \<open>
  The definitions of this section are not taken from the code.  They say in which terms the
  specification describes the input and the result, and the theorems compare them with the
  definitions above.
\<close>

subsection \<open>Article blocks\<close>

text \<open>
  A block of the response: the three labels, each with its colon, and the three field bodies.
\<close>

record block =
  titleColon :: jschar
  titleBody :: jsstring
  summaryColon :: jschar
  summaryBody :: jsstring
  sourceColon :: jschar
  sourceBody :: jsstring

definition renderBlock :: "block \<Rightarrow> jsstring" where
  "renderBlock b =
     [0x6807, 0x9898, titleColon b] @ titleBody b @
     [0x6458, 0x8981, summaryColon b] @ summaryBody b @
     [0x6765, 0x6E90, sourceColon b] @ sourceBody b"

text \<open>The text \<open>s\<close> starts with the label \<open>a b\<close> and a colon; the label occurs in \<open>s\<close>.\<close>

fun startsLabel :: "jschar \<Rightarrow> jschar \<Rightarrow> jsstring \<Rightarrow> bool" where
  "startsLabel a b (x # y # z # s) = (x = a \<and> y = b \<and> isColon z)"
| "startsLabel a b s = False"

fun hasLabel :: "jschar \<Rightarrow> jschar \<Rightarrow> jsstring \<Rightarrow> bool" where
  "hasLabel a b [] = False"
| "hasLabel a b (x # s) = (startsLabel a b (x # s) \<or> hasLabel a b s)"

text \<open>
  A block is well formed when its colons are colons, when the title body holds no summary
  label, the summary body no source label and the source body no title label, and when no
  body is empty after trimming.
\<close>

definition wellFormed :: "block \<Rightarrow> bool" where
  "wellFormed b \<longleftrightarrow>
     isColon (titleColon b) \<and> isColon (summaryColon b) \<and> isColon (sourceColon b) \<and>
     \<not> hasLabel 0x6458 0x8981 (titleBody b) \<and>
     \<not> hasLabel 0x6765 0x6E90 (summaryBody b) \<and>
     \<not> hasLabel 0x6807 0x9898 (sourceBody b) \<and>
     trim (titleBody b) \<noteq> [] \<and> trim (summaryBody b) \<noteq> [] \<and> trim (sourceBody b) \<noteq> []"

subsection \<open>The first URL of a text\<close>

text \<open>
  The URL that starts a text: the scheme \<open>https://\<close> or \<open>http://\<close> and the longest run,
  not empty, of characters other than white space, the two quotes, the closing parenthesis
  and the angle brackets.  The first URL of a text is the URL that starts its earliest suffix
  with one.
\<close>

definition urlAt :: "jsstring \<Rightarrow> jsstring option" where
  "urlAt s =
     (if prefix (ascii ''https://'') s \<and> takeWhile isUrlChar (drop 8 s) \<noteq> []
      then Some (ascii ''https://'' @ takeWhile isUrlChar (drop 8 s))
      else if prefix (ascii ''http://'') s \<and> takeWhile isUrlChar (drop 7 s) \<noteq> []
      then Some (ascii ''http://'' @ takeWhile isUrlChar (drop 7 s))
      else None)"

fun firstUrl :: "jsstring \<Rightarrow> jsstring option" where
  "firstUrl [] = None"
| "firstUrl (x # xs) = (case urlAt (x # xs) of Some u \<Rightarrow> Some u | None \<Rightarrow> firstUrl xs)"

text \<open>The article that the specification expects of a block.\<close>

definition articleOf :: "block \<Rightarrow> article" where
  "articleOf b =
     \<lparr>title = trim (titleBody b), summary = trim (summaryBody b),
      source = (case firstUrl (trim (sourceBody b)) of
                  Some u \<Rightarrow> u
                | None \<Rightarrow> trim (sourceBody b))\<rparr>"

subsection \<open>Grounding entries\<close>

text \<open>
  The chunk that carries the entry \<open>e\<close>, and the keys of a list in the order of their first
  occurrences.
\<close>

definition entryChunk :: "groundingSource \<Rightarrow> groundingChunk option" where
  "entryChunk e =
     Some \<lparr>web = Some \<lparr>webSource.uri = Some (groundingSource.uri e),
                         webSource.title = Some (groundingSource.title e)\<rparr>\<rparr>"

fun firstSeen :: "'a list \<Rightarrow> 'a list" where
  "firstSeen [] = []"
| "firstSeen (x # xs) = x # filter (\<lambda>y. y \<noteq> x) (firstSeen xs)"

subsection \<open>Dates\<close>

text \<open>
  The characters of the date part of \<open>Date.prototype.toISOString\<close>: digits, the hyphen and,
  for a year beyond 9999, the plus sign.
\<close>

definition isDateChar :: "jschar \<Rightarrow> bool" where
  "isDateChar c \<longleftrightarrow> (0x0030 \<le> c \<and> c \<le> 0x0039) \<or> c = 0x002D \<or> c = 0x002B"

section \<open>Example inputs\<close>

text \<open>
  Two well-formed blocks, the first with full-width colons around a half-width one and with
  line breaks inside its bodies; a block whose source body is a sentence around a link; a
  block whose summary body holds the labels of a further title and summary; and a fragment
  with a title and a summary but no source.
\<close>

definition blockA :: block where
  "blockA =
     \<lparr>titleColon = 0xFF1A,
      titleBody = ascii '' Digital trade'' @ [0x000A] @ ascii ''rules '',
      summaryColon = 0x003A,
      summaryBody = ascii '' A survey.'' @ [0x000A],
      sourceColon = 0xFF1A,
      sourceBody = ascii '' https://example.org/a'' @ [0x000A, 0x000A]\<rparr>"

definition blockB :: block where
  "blockB =
     \<lparr>titleColon = 0x003A, titleBody = ascii ''B'',
      summaryColon = 0x003A, summaryBody = ascii ''line 1'' @ [0x000A] @ ascii ''line 2'',
      sourceColon = 0x003A, sourceBody = ascii ''no link''\<rparr>"

definition blockProse :: block where
  "blockProse =
     \<lparr>titleColon = 0x003A, titleBody = ascii ''A'',
      summaryColon = 0x003A, summaryBody = ascii ''B'',
      sourceColon = 0x003A, sourceBody = ascii ''see https://a.b/c now''\<rparr>"

definition blockMerged :: block where
  "blockMerged =
     \<lparr>titleColon = 0x003A, titleBody = ascii ''A'',
      summaryColon = 0x003A,
      summaryBody =
        ascii ''B'' @ [0x6807, 0x9898] @ ascii '':C'' @ [0x6458, 0x8981] @ ascii '':D'',
      sourceColon = 0x003A, sourceBody = ascii ''E''\<rparr>"

definition fragment :: jsstring where
  "fragment =
     [0x6807, 0x9898] @ ascii '':only a title'' @ [0x6458, 0x8981] @ ascii '':and a summary''"

text \<open>
  Grounding entries: two with the same uri and different titles, one with another uri and an
  empty title, and one without a uri.
\<close>

definition entryFirst :: groundingSource where
  "entryFirst =
     \<lparr>groundingSource.uri = ascii ''https://x.org/p'', groundingSource.title = ascii ''first''\<rparr>"

definition entrySecond :: groundingSource where
  "entrySecond =
     \<lparr>groundingSource.uri = ascii ''https://x.org/p'', groundingSource.title = ascii ''second''\<rparr>"

definition entryOther :: groundingSource where
  "entryOther =
     \<lparr>groundingSource.uri = ascii ''https://y.org/q'', groundingSource.title = []\<rparr>"

definition entryNoUri :: groundingSource where
  "entryNoUri =
     \<lparr>groundingSource.uri = [], groundingSource.title = ascii ''no uri''\<rparr>"

text \<open>
  The source field of the specification's example: U+8BE6 U+89C1 (see), a colon, a link, a
  closing parenthesis and four more ideographs.
\<close>

definition blockSeeAlso :: block where
  "blockSeeAlso =
     \<lparr>titleColon = 0x003A, titleBody = ascii '' Paper'',
      summaryColon = 0x003A, summaryBody = ascii '' About data.'',
      sourceColon = 0x003A,
      sourceBody = [0x8BE6, 0x89C1] @ ascii '': https://example.com/paper?x=1) '' @
                   [0x66F4, 0x591A, 0x6587, 0x5B57]\<rparr>"


text \<open>
  A response with two well-formed blocks, the fragment, and two grounding chunks with the same
  uri; a response whose second chunk is \<open>null\<close>; a reply without text and without candidates;
  the topic U+4EBA U+5DE5 U+667A U+80FD (artificial intelligence) and the empty topic; a
  service that answers both requests, one whose translation is rejected, one that rejects
  every request, one whose main reply holds the \<open>null\<close> chunk, and one that answers every
  request with the empty reply.
\<close>

definition groundedResponse :: response where
  "groundedResponse =
     \<lparr>text' = Some (concat (map renderBlock [blockA, blockB]) @ fragment),
      candidates =
        Some [\<lparr>groundingMetadata =
                 Some \<lparr>groundingChunks = Some (map entryChunk [entryFirst, entrySecond])\<rparr>\<rparr>]\<rparr>"

definition nullChunkResponse :: response where
  "nullChunkResponse =
     \<lparr>text' = Some (renderBlock blockB),
      candidates =
        Some [\<lparr>groundingMetadata =
                 Some \<lparr>groundingChunks = Some [entryChunk entryFirst, None]\<rparr>\<rparr>]\<rparr>"

definition emptyReply :: response where
  "emptyReply = \<lparr>text' = None, candidates = None\<rparr>"

definition topicAI :: filterOptions where
  "topicAI = \<lparr>subTopic = [0x4EBA, 0x5DE5, 0x667A, 0x80FD]\<rparr>"

definition noTopic :: filterOptions where
  "noTopic = \<lparr>subTopic = []\<rparr>"

definition envUp :: env where
  "envUp =
     \<lparr>ai = (\<lambda>r. if model r = ascii ''gemini-2.5-flash''
                 then Inr \<lparr>text' = Some (ascii '' artificial intelligence.''),
                            candidates = None\<rparr>
                 else Inr groundedResponse),
      startDate = ascii ''2024-05-01'', endDate = ascii ''2024-05-08''\<rparr>"

definition envTranslationDown :: env where
  "envTranslationDown =
     \<lparr>ai = (\<lambda>r. if model r = ascii ''gemini-2.5-flash''
                 then Inl (ServiceError 503)
                 else Inr groundedResponse),
      startDate = ascii ''2024-05-01'', endDate = ascii ''2024-05-08''\<rparr>"

definition envNullChunk :: env where
  "envNullChunk =
     \<lparr>ai = (\<lambda>r. if model r = ascii ''gemini-2.5-flash''
                 then Inr \<lparr>text' = Some (ascii '' artificial intelligence.''),
                            candidates = None\<rparr>
                 else Inr nullChunkResponse),
      startDate = ascii ''2024-05-01'', endDate = ascii ''2024-05-08''\<rparr>"

definition envEmptyReply :: env where
  "envEmptyReply =
     \<lparr>ai = (\<lambda>r. Inr emptyReply),
      startDate = ascii ''2024-05-01'', endDate = ascii ''2024-05-08''\<rparr>"

definition envDown :: env where
  "envDown =
     \<lparr>ai = (\<lambda>r. Inl (ServiceError 503)),
      startDate = ascii ''2024-05-01'', endDate = ascii ''2024-05-08''\<rparr>"

section \<open>The matcher\<close>

lemma rmatch_rest: "rmatch r s = Some (caps, rest) \<Longrightarrow> suffix rest s"
  by (induction r s arbitrary: caps rest rule: rmatch.induct)
     (auto simp: suffix_Cons split: if_splits option.splits list.splits)

lemma rmatch_ngroups: "rmatch r s = Some (caps, rest) \<Longrightarrow> length caps = ngroups r"
  by (induction r s arbitrary: caps rest rule: rmatch.induct)
     (auto split: if_splits option.splits list.splits)

lemma rmatch_Lit_shorter:
  assumes "rmatch (Lit c # r) s = Some (caps, rest)"
  shows "length rest < length s"
proof (cases s)
  case Nil
  with assms show ?thesis by simp
next
  case (Cons x xs)
  with assms have "rmatch r xs = Some (caps, rest)" by (simp split: if_splits)
  then have "suffix rest xs" by (rule rmatch_rest)
  then have "length rest \<le> length xs" by (rule suffix_length_le)
  with Cons show ?thesis by simp
qed

lemma searchFrom_bounds:
  "searchFrom r s i = Some m \<Longrightarrow>
     i \<le> index m \<and> index m \<le> endIndex m \<and> endIndex m \<le> i + length s \<and>
     length (groups m) = ngroups r"
proof (induction s arbitrary: i)
  case Nil
  then show ?case by (auto split: option.splits dest: rmatch_ngroups)
next
  case (Cons x xs)
  show ?case
  proof (cases "rmatch r (x # xs)")
    case None
    with Cons.prems have "searchFrom r xs (Suc i) = Some m" by simp
    from Cons.IH [OF this] show ?thesis by simp
  next
    case (Some cr)
    obtain caps rest where cr: "cr = (caps, rest)" by (cases cr)
    from Some cr Cons.prems rmatch_ngroups [of r "x # xs" caps rest]
    show ?thesis by auto
  qed
qed

lemma searchFrom_Lit_progress:
  "searchFrom (Lit c # r) s i = Some m \<Longrightarrow> i < endIndex m"
proof (induction s arbitrary: i)
  case Nil
  then show ?case by simp
next
  case (Cons x xs)
  show ?case
  proof (cases "rmatch (Lit c # r) (x # xs)")
    case None
    with Cons.prems have "searchFrom (Lit c # r) xs (Suc i) = Some m" by simp
    from Cons.IH [OF this] show ?thesis by simp
  next
    case (Some cr)
    obtain caps rest where cr: "cr = (caps, rest)" by (cases cr)
    from Some cr rmatch_Lit_shorter have "length rest < length (x # xs)" by blast
    with Some cr Cons.prems show ?thesis by auto
  qed
qed

lemma regexExec_article:
  assumes "regexExec articleRegex text i = Some m"
  shows "i < endIndex m" and "endIndex m \<le> length text" and "length (groups m) = 3"
proof -
  from assms have le: "i \<le> length text"
    and sf: "searchFrom articleRegex (drop i text) i = Some m"
    by (auto simp: regexExec_def split: if_splits)
  obtain c r where "articleRegex = Lit c # r" by (simp add: articleRegex_def)
  with sf searchFrom_Lit_progress show "i < endIndex m" by metis
  have "ngroups articleRegex = 3" by (simp add: articleRegex_def)
  with searchFrom_bounds [OF sf] le show "endIndex m \<le> length text"
    and "length (groups m) = 3" by auto
qed

subsection \<open>Labels and lazy groups\<close>

lemma rmatch_label:
  "rmatch (Lit a # Lit b # Class isColon # r) s =
     (if startsLabel a b s then rmatch r (drop 3 s) else None)"
proof (cases s)
  case Nil
  then show ?thesis by simp
next
  case s1: (Cons x s')
  show ?thesis
  proof (cases s')
    case Nil
    with s1 show ?thesis by simp
  next
    case s2: (Cons y s'')
    show ?thesis
    proof (cases s'')
      case Nil
      with s1 s2 show ?thesis by simp
    next
      case (Cons z t)
      with s1 s2 show ?thesis by simp
    qed
  qed
qed

lemma rmatch_lookahead:
  "rmatch [LookAhead [[Lit a, Lit b, Class isColon], [EndOfInput]]] s =
     (if startsLabel a b s \<or> s = [] then Some ([], s) else None)"
proof -
  have "rmatch [Lit a, Lit b, Class isColon] s \<noteq> None \<longleftrightarrow> startsLabel a b s"
    by (simp add: rmatch_label)
  then show ?thesis by auto
qed

lemma rmatch_LazyGroup_skip:
  assumes "\<forall>k<length t. rmatch r (drop k t @ s) = None"
    and "rmatch r s = Some (caps, rest)"
    and "\<forall>x\<in>set t. p x"
  shows "rmatch (LazyGroup p # r) (t @ s) = Some (t # caps, rest)"
  using assms
proof (induction t)
  case Nil
  then show ?case by (cases s) simp_all
next
  case (Cons x t)
  from Cons.prems(1) have here: "rmatch r ((x # t) @ s) = None" by force
  have "\<forall>k<length t. rmatch r (drop k t @ s) = None"
  proof (intro allI impI)
    fix k assume "k < length t"
    then have "Suc k < length (x # t)" by simp
    with Cons.prems(1) have "rmatch r (drop (Suc k) (x # t) @ s) = None" by blast
    then show "rmatch r (drop k t @ s) = None" by simp
  qed
  with Cons.IH Cons.prems have "rmatch (LazyGroup p # r) (t @ s) = Some (t # caps, rest)"
    by simp
  with here Cons.prems(3) show ?case by simp
qed

lemma no_label_across:
  assumes "\<not> hasLabel a b t" and "a \<noteq> b" and "\<not> isColon a"
    and "u = [] \<or> (\<exists>c u'. u = a # b # c # u')"
    and "k < length t"
  shows "\<not> startsLabel a b (drop k t @ u)"
  using assms(1,5)
proof (induction t arbitrary: k)
  case Nil
  then show ?case by simp
next
  case (Cons x t)
  show ?case
  proof (cases k)
    case (Suc k')
    with Cons show ?thesis by simp
  next
    case 0
    from Cons.prems(1) have ns: "\<not> startsLabel a b (x # t)" by simp
    show ?thesis
    proof (cases t)
      case Nil
      with 0 assms(2,4) show ?thesis by auto
    next
      case t1: (Cons y t')
      show ?thesis
      proof (cases t')
        case Nil
        with 0 t1 assms(3,4) show ?thesis by auto
      next
        case (Cons z t'')
        with 0 t1 ns show ?thesis by simp
      qed
    qed
  qed
qed

lemma isColon_simps: "isColon 0xFF1A" "isColon 0x3A" "\<not> isColon 0x6807" "\<not> isColon 0x6458" "\<not> isColon 0x6765"
  by (simp_all add: isColon_def)

lemma anyChar_True: "anyChar c"
  by (simp add: anyChar_def)

lemma rmatch_block:
  assumes wf: "wellFormed b"
    and rest: "rest = [] \<or> (\<exists>c u. rest = 0x6807 # 0x9898 # c # u \<and> isColon c)"
  shows "rmatch articleRegex (renderBlock b @ rest) =
           Some ([titleBody b, summaryBody b, sourceBody b], rest)"
proof -
  let ?la = "[LookAhead [[Lit 0x6807, Lit 0x9898, Class isColon], [EndOfInput]]]"
  let ?r3 = "Lit 0x6765 # Lit 0x6E90 # Class isColon # LazyGroup anyChar # ?la"
  let ?r2 = "Lit 0x6458 # Lit 0x8981 # Class isColon # LazyGroup anyChar # ?r3"
  from wf have colons: "isColon (titleColon b)" "isColon (summaryColon b)" "isColon (sourceColon b)"
    and nt: "\<not> hasLabel 0x6458 0x8981 (titleBody b)"
    and ns: "\<not> hasLabel 0x6765 0x6E90 (summaryBody b)"
    and nr: "\<not> hasLabel 0x6807 0x9898 (sourceBody b)"
    by (simp_all add: wellFormed_def)
  from rest have la: "rmatch ?la rest = Some ([], rest)"
    by (auto simp: rmatch_lookahead simp del: rmatch.simps)
  have "\<forall>k<length (sourceBody b). rmatch ?la (drop k (sourceBody b) @ rest) = None"
  proof (intro allI impI)
    fix k assume k: "k < length (sourceBody b)"
    from rest have "rest = [] \<or> (\<exists>c u'. rest = 0x6807 # 0x9898 # c # u')" by blast
    from no_label_across [OF nr _ _ this k]
    have "\<not> startsLabel 0x6807 0x9898 (drop k (sourceBody b) @ rest)"
      by (simp add: isColon_def)
    with k show "rmatch ?la (drop k (sourceBody b) @ rest) = None"
      by (simp add: rmatch_lookahead del: rmatch.simps)
  qed
  from rmatch_LazyGroup_skip [OF this la, of anyChar]
  have g3: "rmatch (LazyGroup anyChar # ?la) (sourceBody b @ rest) = Some ([sourceBody b], rest)"
    by (simp add: anyChar_True)
  then have m3: "rmatch ?r3 ([0x6765, 0x6E90, sourceColon b] @ sourceBody b @ rest)
      = Some ([sourceBody b], rest)"
    using colons by (simp add: rmatch_label del: rmatch.simps)
  have "\<forall>k<length (summaryBody b).
      rmatch ?r3 (drop k (summaryBody b) @ [0x6765, 0x6E90, sourceColon b] @ sourceBody b @ rest) = None"
  proof (intro allI impI)
    fix k assume k: "k < length (summaryBody b)"
    have "\<not> startsLabel 0x6765 0x6E90
        (drop k (summaryBody b) @ (0x6765 # 0x6E90 # sourceColon b # sourceBody b @ rest))"
      by (rule no_label_across [OF ns _ _ _ k]) (simp_all add: isColon_def)
    then show "rmatch ?r3 (drop k (summaryBody b) @ [0x6765, 0x6E90, sourceColon b] @ sourceBody b @ rest) = None"
      by (simp add: rmatch_label del: rmatch.simps)
  qed
  from rmatch_LazyGroup_skip [OF this m3, of anyChar]
  have g2: "rmatch (LazyGroup anyChar # ?r3)
      (summaryBody b @ [0x6765, 0x6E90, sourceColon b] @ sourceBody b @ rest)
      = Some ([summaryBody b, sourceBody b], rest)"
    by (simp add: anyChar_True)
  then have m2: "rmatch ?r2 ([0x6458, 0x8981, summaryColon b] @ summaryBody b @
      [0x6765, 0x6E90, sourceColon b] @ sourceBody b @ rest)
      = Some ([summaryBody b, sourceBody b], rest)"
    using colons by (simp add: rmatch_label del: rmatch.simps)
  have "\<forall>k<length (titleBody b).
      rmatch ?r2 (drop k (titleBody b) @ [0x6458, 0x8981, summaryColon b] @ summaryBody b @
        [0x6765, 0x6E90, sourceColon b] @ sourceBody b @ rest) = None"
  proof (intro allI impI)
    fix k assume k: "k < length (titleBody b)"
    have "\<not> startsLabel 0x6458 0x8981
        (drop k (titleBody b) @ (0x6458 # 0x8981 # summaryColon b # summaryBody b @
        [0x6765, 0x6E90, sourceColon b] @ sourceBody b @ rest))"
      by (rule no_label_across [OF nt _ _ _ k]) (simp_all add: isColon_def)
    then show "rmatch ?r2 (drop k (titleBody b) @ [0x6458, 0x8981, summaryColon b] @ summaryBody b @
        [0x6765, 0x6E90, sourceColon b] @ sourceBody b @ rest) = None"
      by (simp add: rmatch_label del: rmatch.simps)
  qed
  from rmatch_LazyGroup_skip [OF this m2, of anyChar]
  have g1: "rmatch (LazyGroup anyChar # ?r2)
      (titleBody b @ [0x6458, 0x8981, summaryColon b] @ summaryBody b @
        [0x6765, 0x6E90, sourceColon b] @ sourceBody b @ rest)
      = Some ([titleBody b, summaryBody b, sourceBody b], rest)"
    by (simp add: anyChar_True)
  from g1 colons show ?thesis
    unfolding articleRegex_def renderBlock_def
    by (simp add: rmatch_label del: rmatch.simps)
qed

subsection \<open>The URL pattern\<close>

lemma rmatch_Plus_end:
  "rmatch [Plus p] s = (if takeWhile p s = [] then None else Some ([], dropWhile p s))"
proof (induction s)
  case Nil
  show ?case by simp
next
  case (Cons x xs)
  show ?case
  proof (cases "p x")
    case False
    then show ?thesis by simp
  next
    case True
    show ?thesis
    proof (cases xs)
      case Nil
      with True show ?thesis by simp
    next
      case (Cons y ys)
      with True Cons.IH show ?thesis by (cases "p y") simp_all
    qed
  qed
qed

lemma ascii_https: "ascii ''https://'' = [0x68, 0x74, 0x74, 0x70, 0x73, 0x3A, 0x2F, 0x2F]"
  by (simp add: ascii_def)

lemma ascii_http: "ascii ''http://'' = [0x68, 0x74, 0x74, 0x70, 0x3A, 0x2F, 0x2F]"
  by (simp add: ascii_def)

lemma rmatch_urlTail:
  "rmatch urlTail s =
     (case s of
        a # b # c # t \<Rightarrow>
          if a = 0x3A \<and> b = 0x2F \<and> c = 0x2F \<and> takeWhile isUrlChar t \<noteq> []
          then Some ([], dropWhile isUrlChar t) else None
      | _ \<Rightarrow> None)"
  unfolding urlTail_def
  by (simp add: rmatch_Plus_end del: rmatch.simps(10,11) split: list.splits)

lemma rmatch_urlRegex:
  "rmatch urlRegex s =
     (case urlAt s of None \<Rightarrow> None | Some u \<Rightarrow> Some ([], drop (length u) s))"
proof -
  have unf: "rmatch urlRegex s =
      (case s of
         a # b # c # d # t \<Rightarrow>
           if a = 0x68 \<and> b = 0x74 \<and> c = 0x74 \<and> d = 0x70 then rmatch (Opt 0x73 # urlTail) t else None
       | _ \<Rightarrow> None)"
    unfolding urlRegex_def urlTail_def
    by (simp del: rmatch.simps(6,7,10,11) split: list.splits)
  have opt: "rmatch (Opt 0x73 # urlTail) t =
      (case t of x # xs \<Rightarrow> if x = 0x73 then rmatch urlTail xs else rmatch urlTail t | [] \<Rightarrow> None)" for t
    by (cases t) (auto simp: rmatch_urlTail simp del: rmatch.simps(10,11) split: list.splits option.splits)
  show ?thesis
    unfolding unf opt rmatch_urlTail urlAt_def ascii_https ascii_http
    by (simp split: list.splits add: dropWhile_eq_drop)
qed

lemma length_schemes: "length (ascii ''https://'') = 8" "length (ascii ''http://'') = 7"
  by (simp_all add: ascii_def)

lemma urlAt_cases:
  assumes "urlAt s = Some u"
  obtains "prefix (ascii ''https://'') s" and "u = ascii ''https://'' @ takeWhile isUrlChar (drop 8 s)"
      and "takeWhile isUrlChar (drop 8 s) \<noteq> []"
  | "prefix (ascii ''http://'') s" and "u = ascii ''http://'' @ takeWhile isUrlChar (drop 7 s)"
      and "takeWhile isUrlChar (drop 7 s) \<noteq> []"
  using assms unfolding urlAt_def by (auto split: if_splits)

lemma prefix_takeWhile_drop:
  assumes "prefix w s" and "n = length w"
  shows "prefix (w @ takeWhile p (drop n s)) s"
proof -
  from assms obtain t where "s = w @ t" by (auto simp: prefix_def)
  moreover have "prefix (takeWhile p t) t"
    by (metis prefixI takeWhile_dropWhile_id)
  ultimately show ?thesis using assms(2) by simp
qed

lemma urlAt_prefix: "urlAt s = Some u \<Longrightarrow> prefix u s"
  by (erule urlAt_cases) (simp_all add: prefix_takeWhile_drop length_schemes)

lemma searchFrom_urlRegex: "map_option whole (searchFrom urlRegex s i) = firstUrl s"
proof (induction s arbitrary: i)
  case Nil
  show ?case by (simp add: rmatch_urlRegex urlAt_def ascii_def del: rmatch.simps)
next
  case (Cons x xs)
  show ?case
  proof (cases "urlAt (x # xs)")
    case None
    with Cons.IH show ?thesis by (simp add: rmatch_urlRegex del: rmatch.simps)
  next
    case (Some u)
    from urlAt_prefix [OF this] obtain t where t: "x # xs = u @ t" by (auto simp: prefix_def)
    have "take (length (x # xs) - length (drop (length u) (x # xs))) (x # xs) = u"
      unfolding t by simp
    with Some show ?thesis
      by (simp add: rmatch_urlRegex del: rmatch.simps length_Cons take_Suc_Cons take_Cons' drop_Suc_Cons length_drop)
  qed
qed

lemma extractSource_firstUrl:
  "extractSource src = (case firstUrl src of Some u \<Rightarrow> u | None \<Rightarrow> src)"
proof -
  have "map_option whole (urlMatch src) = firstUrl src"
    by (simp add: urlMatch_def regexExec_def searchFrom_urlRegex)
  then show ?thesis
    by (cases "urlMatch src") (auto simp: extractSource_def dest: sym)
qed

lemma isUrlChar_scheme:
  "\<forall>c\<in>set (ascii ''https://''). isUrlChar c"
  by (simp add: ascii_def isUrlChar_def isWhiteSpace_def)

lemma isUrlChar_schemes:
  "\<forall>c\<in>set (ascii ''https://''). isUrlChar c" "\<forall>c\<in>set (ascii ''http://''). isUrlChar c"
  by (simp_all add: ascii_def isUrlChar_def isWhiteSpace_def)

lemma urlAt_props:
  assumes "urlAt s = Some u"
  shows "(prefix (ascii ''http://'') u \<or> prefix (ascii ''https://'') u) \<and>
         (\<forall>c\<in>set u. isUrlChar c) \<and> u \<noteq> []"
  using assms
proof (cases rule: urlAt_cases)
  case 1
  have "\<forall>c\<in>set (takeWhile isUrlChar (drop 8 s)). isUrlChar c"
    by (auto dest: set_takeWhileD)
  with isUrlChar_schemes(1) 1 show ?thesis by auto
next
  case 2
  have "\<forall>c\<in>set (takeWhile isUrlChar (drop 7 s)). isUrlChar c"
    by (auto dest: set_takeWhileD)
  with isUrlChar_schemes(2) 2 show ?thesis by auto
qed

lemma firstUrl_props:
  "firstUrl s = Some u \<Longrightarrow>
     (prefix (ascii ''http://'') u \<or> prefix (ascii ''https://'') u) \<and>
     (\<forall>c\<in>set u. isUrlChar c) \<and> u \<noteq> [] \<and> sublist u s"
proof (induction s)
  case Nil
  then show ?case by simp
next
  case (Cons x xs)
  show ?case
  proof (cases "urlAt (x # xs)")
    case None
    with Cons show ?thesis by (auto simp: sublist_Cons_right)
  next
    case (Some v)
    with Cons.prems have "v = u" by simp
    with Some urlAt_props [of "x # xs" u] urlAt_prefix [of "x # xs" u] show ?thesis
      by (simp add: prefix_imp_sublist)
  qed
qed

section \<open>The loop of parseArticleResponse\<close>

lemma processMatch_three:
  assumes "length (groups m) = 3"
  shows "processMatch m =
     Inr (let t = trim (groups m ! 0); s = trim (groups m ! 1);
              u = extractSource (trim (groups m ! 2))
          in if t \<noteq> [] \<and> s \<noteq> [] \<and> u \<noteq> []
             then Some \<lparr>title = t, summary = s, source = u\<rparr> else None)"
  using assms by (simp add: processMatch_def matchGroup_def trimOf_def Let_def)

lemma parseLoop_returns: "\<exists>as. parseLoop text i acc = Some (Inr as)"
proof (induction "length text - i" arbitrary: i acc rule: less_induct)
  case less
  show ?case
  proof (cases "regexExec articleRegex text i")
    case None
    then show ?thesis by (subst parseLoop.simps) simp
  next
    case (Some m)
    note b = regexExec_article [OF Some]
    from b have dec: "length text - endIndex m < length text - i" by arith
    from processMatch_three [OF b(3)] consider
      (skip) "processMatch m = Inr None" | (push) a where "processMatch m = Inr (Some a)"
      by (auto simp: Let_def split: if_splits)
    then show ?thesis
    proof cases
      case skip
      from less [OF dec, of acc] obtain as
        where "parseLoop text (endIndex m) acc = Some (Inr as)" by blast
      with Some skip show ?thesis by (subst parseLoop.simps) simp
    next
      case push
      from less [OF dec, of "acc @ [a]"] obtain as
        where "parseLoop text (endIndex m) (acc @ [a]) = Some (Inr as)" by blast
      with Some push show ?thesis by (subst parseLoop.simps) simp
    qed
  qed
qed

lemma searchFrom_here:
  assumes "rmatch r (w @ rest) = Some (caps, rest)"
  shows "searchFrom r (w @ rest) i =
           Some \<lparr>index = i, whole = w, groups = caps, endIndex = i + length w\<rparr>"
proof (cases "w @ rest")
  case Nil
  with assms show ?thesis by simp
next
  case (Cons x xs)
  from assms have "rmatch r (x # xs) = Some (caps, rest)" by (simp add: Cons)
  moreover have "length (x # xs) - length rest = length w"
    by (simp add: Cons [symmetric])
  moreover have "take (length w) (x # xs) = w"
    by (simp add: Cons [symmetric])
  ultimately show ?thesis unfolding Cons
    by (simp del: rmatch.simps length_Cons take_Suc_Cons take_Cons')
qed

lemma regexExec_block:
  assumes "wellFormed b"
    and "rest = [] \<or> (\<exists>c u. rest = 0x6807 # 0x9898 # c # u \<and> isColon c)"
    and "i \<le> length text"
    and "drop i text = renderBlock b @ rest"
  shows "regexExec articleRegex text i =
           Some \<lparr>index = i, whole = renderBlock b,
                 groups = [titleBody b, summaryBody b, sourceBody b],
                 endIndex = i + length (renderBlock b)\<rparr>"
  using assms(3,4) searchFrom_here [OF rmatch_block [OF assms(1,2)], of i]
  by (simp add: regexExec_def)

lemma processMatch_block:
  assumes "wellFormed b" and "groups m = [titleBody b, summaryBody b, sourceBody b]"
  shows "processMatch m = Inr (Some (articleOf b))"
proof -
  from assms(1) have ne: "trim (titleBody b) \<noteq> []" "trim (summaryBody b) \<noteq> []"
    "trim (sourceBody b) \<noteq> []"
    by (simp_all add: wellFormed_def)
  have "extractSource (trim (sourceBody b)) \<noteq> []"
    using ne(3) firstUrl_props [of "trim (sourceBody b)"]
    by (auto simp: extractSource_firstUrl split: option.splits)
  with ne assms(2) show ?thesis
    by (simp add: processMatch_def matchGroup_def trimOf_def articleOf_def extractSource_firstUrl)
qed

lemma startsLabel_hasLabel: "startsLabel a b s \<Longrightarrow> hasLabel a b s"
  by (cases s) simp_all

lemma hasLabel_drop: "hasLabel a b (drop k s) \<Longrightarrow> hasLabel a b s"
proof (induction s arbitrary: k)
  case Nil
  then show ?case by simp
next
  case (Cons x s)
  then show ?case by (cases k) auto
qed

lemma rmatch_LazyGroup_later:
  "rmatch (LazyGroup p # r) s = Some m \<Longrightarrow> \<exists>k. rmatch r (drop k s) \<noteq> None"
proof (induction s arbitrary: m)
  case Nil
  then have "rmatch r (drop 0 []) \<noteq> None" by (auto split: option.splits)
  then show ?case by blast
next
  case (Cons x xs)
  show ?case
  proof (cases "rmatch r (x # xs)")
    case (Some m')
    then have "rmatch r (drop 0 (x # xs)) \<noteq> None" by simp
    then show ?thesis by blast
  next
    case None
    with Cons.prems obtain m' where "rmatch (LazyGroup p # r) xs = Some m'"
      by (auto split: if_splits option.splits)
    from Cons.IH [OF this] obtain k where "rmatch r (drop k xs) \<noteq> None" by blast
    then have "rmatch r (drop (Suc k) (x # xs)) \<noteq> None" by simp
    then show ?thesis by blast
  qed
qed

lemma rmatch_articleRegex_labels:
  assumes "rmatch articleRegex s = Some m"
  shows "hasLabel 0x6458 0x8981 s \<and> hasLabel 0x6765 0x6E90 s"
proof -
  let ?la = "[LookAhead [[Lit 0x6807, Lit 0x9898, Class isColon], [EndOfInput]]]"
  let ?r3 = "Lit 0x6765 # Lit 0x6E90 # Class isColon # LazyGroup anyChar # ?la"
  let ?r2 = "Lit 0x6458 # Lit 0x8981 # Class isColon # LazyGroup anyChar # ?r3"
  from assms have "rmatch (LazyGroup anyChar # ?r2) (drop 3 s) = Some m"
    unfolding articleRegex_def by (simp add: rmatch_label del: rmatch.simps split: if_splits)
  from rmatch_LazyGroup_later [OF this] obtain k
    where k: "rmatch ?r2 (drop k (drop 3 s)) \<noteq> None" by blast
  then have l2: "startsLabel 0x6458 0x8981 (drop k (drop 3 s))"
    by (auto simp add: rmatch_label simp del: rmatch.simps split: if_splits)
  from k obtain m2
    where "rmatch (LazyGroup anyChar # ?r3) (drop 3 (drop k (drop 3 s))) = Some m2"
    by (auto simp add: rmatch_label simp del: rmatch.simps split: if_splits)
  from rmatch_LazyGroup_later [OF this] obtain j
    where "rmatch ?r3 (drop j (drop 3 (drop k (drop 3 s)))) \<noteq> None" by blast
  then have l3: "startsLabel 0x6765 0x6E90 (drop j (drop 3 (drop k (drop 3 s))))"
    by (auto simp add: rmatch_label simp del: rmatch.simps split: if_splits)
  from l2 have "hasLabel 0x6458 0x8981 s"
    by (blast intro: startsLabel_hasLabel hasLabel_drop)
  moreover from l3 have "hasLabel 0x6765 0x6E90 s"
    by (blast intro: startsLabel_hasLabel hasLabel_drop)
  ultimately show ?thesis by simp
qed

lemma searchFrom_missing_label:
  "\<not> hasLabel 0x6458 0x8981 s \<or> \<not> hasLabel 0x6765 0x6E90 s \<Longrightarrow>
   searchFrom articleRegex s i = None"
proof (induction s arbitrary: i)
  case Nil
  then have "rmatch articleRegex [] = None"
    using rmatch_articleRegex_labels [of "[]"] by (cases "rmatch articleRegex []") auto
  then show ?case by simp
next
  case (Cons x xs)
  then have "rmatch articleRegex (x # xs) = None"
    using rmatch_articleRegex_labels [of "x # xs"]
    by (cases "rmatch articleRegex (x # xs)") auto
  moreover from Cons.prems have "\<not> hasLabel 0x6458 0x8981 xs \<or> \<not> hasLabel 0x6765 0x6E90 xs"
    by auto
  ultimately show ?case using Cons.IH by simp
qed

lemma startsLabel_renderBlock:
  "isColon (titleColon b) \<Longrightarrow> \<exists>c u. renderBlock b @ t = 0x6807 # 0x9898 # c # u \<and> isColon c"
  by (simp add: renderBlock_def)

lemma parseLoop_blocks:
  assumes "\<forall>b\<in>set bs. wellFormed b"
    and "frag = [] \<or> (\<exists>c u. frag = 0x6807 # 0x9898 # c # u \<and> isColon c)"
    and "\<not> hasLabel 0x6458 0x8981 frag \<or> \<not> hasLabel 0x6765 0x6E90 frag"
    and "i \<le> length text"
    and "drop i text = concat (map renderBlock bs) @ frag"
  shows "parseLoop text i acc = Some (Inr (acc @ map articleOf bs))"
  using assms(1,4,5)
proof (induction bs arbitrary: i acc)
  case Nil
  then have "regexExec articleRegex text i = None"
    using searchFrom_missing_label [OF assms(3)] by (simp add: regexExec_def)
  then show ?case by (subst parseLoop.simps) simp
next
  case (Cons b bs)
  let ?rest = "concat (map renderBlock bs) @ frag"
  from Cons.prems(1) have wf: "wellFormed b" and wfs: "\<forall>b\<in>set bs. wellFormed b" by simp_all
  have rest: "?rest = [] \<or> (\<exists>c u. ?rest = 0x6807 # 0x9898 # c # u \<and> isColon c)"
  proof (cases bs)
    case Nil
    with assms(2) show ?thesis by simp
  next
    case (Cons b' bs')
    with wfs have "isColon (titleColon b')" by (simp add: wellFormed_def)
    from startsLabel_renderBlock [OF this, of "concat (map renderBlock bs') @ frag"] Cons
    show ?thesis by simp
  qed
  from Cons.prems(3) have d: "drop i text = renderBlock b @ ?rest" by simp
  note ex = regexExec_block [OF wf rest Cons.prems(2) d]
  let ?m = "\<lparr>index = i, whole = renderBlock b,
                 groups = [titleBody b, summaryBody b, sourceBody b],
                 endIndex = i + length (renderBlock b)\<rparr>"
  have pm: "processMatch ?m = Inr (Some (articleOf b))"
    by (rule processMatch_block [OF wf]) simp
  have len: "i + length (renderBlock b) \<le> length text"
  proof -
    have "length (drop i text) = length (renderBlock b) + length ?rest"
      unfolding d by simp
    then show ?thesis using Cons.prems(2) by simp
  qed
  have "drop (i + length (renderBlock b)) text = ?rest"
  proof -
    have "drop (i + length (renderBlock b)) text = drop (length (renderBlock b)) (drop i text)"
      by (simp add: add.commute)
    then show ?thesis unfolding d by simp
  qed
  from Cons.IH [OF wfs len this, of "acc @ [articleOf b]"]
  have "parseLoop text (i + length (renderBlock b)) (acc @ [articleOf b])
      = Some (Inr (acc @ map articleOf (b # bs)))" by simp
  with ex pm show ?case by (subst parseLoop.simps) simp
qed

text \<open>
  Claim C5.  parseArticleResponse is total: on every text the loop ends and no error is
  thrown, so a list of articles is returned; when the pattern has no match in the text, the
  list is empty.
\<close>

theorem parseArticleResponse_total:
  "(\<exists>as. parseArticleResponse text = Some (Inr as)) \<and>
   (regexExec articleRegex text 0 = None \<longrightarrow> parseArticleResponse text = Some (Inr []))"
proof
  show "\<exists>as. parseArticleResponse text = Some (Inr as)"
    unfolding parseArticleResponse_def by (rule parseLoop_returns)
  show "regexExec articleRegex text 0 = None \<longrightarrow> parseArticleResponse text = Some (Inr [])"
    unfolding parseArticleResponse_def by (subst parseLoop.simps) simp
qed

theorem parseArticleResponse_total_witness:
  "regexExec articleRegex (ascii ''no article here'') 0 = None \<and>
   parseArticleResponse (ascii ''no article here'') = Some (Inr [])"
proof -
  have none: "regexExec articleRegex (ascii ''no article here'') 0 = None"
    by (simp add: regexExec_def articleRegex_def ascii_def)
  with parseArticleResponse_total [of "ascii ''no article here''"] show ?thesis by blast
qed

section \<open>Well-formed blocks\<close>

lemmas eval_simps = ascii_def trim_def isWhiteSpace_def isColon_def isUrlChar_def urlAt_def
  wellFormed_def articleOf_def renderBlock_def

text \<open>
  Claim C1, amended.  For a text that consists of well-formed blocks one after the other,
  parseArticleResponse returns one article for each block, in the order of the blocks; the
  title and the summary of the article are the trimmed bodies of the block, and its source is
  the first URL of the trimmed source body, or that trimmed body when it holds no URL.
\<close>

theorem parse_blocks:
  assumes "\<forall>b\<in>set bs. wellFormed b"
  shows "parseArticleResponse (concat (map renderBlock bs)) = Some (Inr (map articleOf bs))"
  unfolding parseArticleResponse_def
  using parseLoop_blocks [OF assms, of "[]" 0 "concat (map renderBlock bs)" "[]"]
  by simp

theorem parse_blocks_witness:
  "wellFormed blockA \<and> wellFormed blockB \<and>
   parseArticleResponse (concat (map renderBlock [blockA, blockB])) =
     Some (Inr [\<lparr>title = ascii ''Digital trade'' @ [0x000A] @ ascii ''rules'',
                  summary = ascii ''A survey.'', source = ascii ''https://example.org/a''\<rparr>,
                \<lparr>title = ascii ''B'',
                  summary = ascii ''line 1'' @ [0x000A] @ ascii ''line 2'', source = ascii ''no link''\<rparr>])"
proof -
  have wf: "\<forall>b\<in>set [blockA, blockB]. wellFormed b"
    by (simp add: blockA_def blockB_def eval_simps)
  have a: "articleOf blockA =
      \<lparr>title = ascii ''Digital trade'' @ [0x000A] @ ascii ''rules'',
        summary = ascii ''A survey.'', source = ascii ''https://example.org/a''\<rparr>"
    by (simp add: blockA_def eval_simps)
  have b: "articleOf blockB =
      \<lparr>title = ascii ''B'', summary = ascii ''line 1'' @ [0x000A] @ ascii ''line 2'',
        source = ascii ''no link''\<rparr>"
    by (simp add: blockB_def eval_simps)
  from wf have "wellFormed blockA \<and> wellFormed blockB" by simp
  with parse_blocks [OF wf] show ?thesis
    by (simp only: list.map a b simp_thms)
qed

text \<open>
  Claim C1 as it is written fails: the source of the article is not always the trimmed source
  body.  For a source body that is a sentence around a link, the source is the link alone.
\<close>

theorem trimmed_source_counterexample:
  "wellFormed blockProse \<and>
   parseArticleResponse (renderBlock blockProse) =
     Some (Inr [\<lparr>title = ascii ''A'', summary = ascii ''B'', source = ascii ''https://a.b/c''\<rparr>]) \<and>
   trim (sourceBody blockProse) = ascii ''see https://a.b/c now'' \<and>
   ascii ''https://a.b/c'' \<noteq> trim (sourceBody blockProse)"
proof -
  have wf: "wellFormed blockProse"
    by (simp add: blockProse_def eval_simps)
  have a: "articleOf blockProse = \<lparr>title = ascii ''A'', summary = ascii ''B'', source = ascii ''https://a.b/c''\<rparr>"
    by (simp add: blockProse_def eval_simps)
  have t: "trim (sourceBody blockProse) = ascii ''see https://a.b/c now''"
    by (simp add: blockProse_def eval_simps)
  have ne: "ascii ''https://a.b/c'' \<noteq> trim (sourceBody blockProse)"
    unfolding t by (simp add: ascii_def)
  have "parseLoop (renderBlock blockProse) 0 [] = Some (Inr ([] @ map articleOf [blockProse]))"
    by (rule parseLoop_blocks [where frag = "[]"]) (simp_all add: wf)
  with wf a t ne show ?thesis by (simp add: parseArticleResponse_def)
qed

section \<open>Incomplete blocks\<close>

lemma processMatch_complete:
  "processMatch m = Inr (Some a) \<Longrightarrow> title a \<noteq> [] \<and> summary a \<noteq> [] \<and> source a \<noteq> []"
  by (auto simp: processMatch_def Let_def split: sum.splits if_splits)

lemma parseLoop_complete:
  assumes "parseLoop text i acc = Some (Inr as)"
    and "\<forall>a\<in>set acc. title a \<noteq> [] \<and> summary a \<noteq> [] \<and> source a \<noteq> []"
  shows "\<forall>a\<in>set as. title a \<noteq> [] \<and> summary a \<noteq> [] \<and> source a \<noteq> []"
  using assms
proof (induction "length text - i" arbitrary: i acc rule: less_induct)
  case less
  show ?case
  proof (cases "regexExec articleRegex text i")
    case None
    with less.prems(1) have "as = acc" by (subst (asm) parseLoop.simps) simp
    with less.prems(2) show ?thesis by simp
  next
    case (Some m)
    note b = regexExec_article [OF Some]
    from b have dec: "length text - endIndex m < length text - i" by arith
    from processMatch_three [OF b(3)] consider
      (skip) "processMatch m = Inr None" | (push) a where "processMatch m = Inr (Some a)"
      by (auto simp: Let_def split: if_splits)
    then show ?thesis
    proof cases
      case skip
      with Some less.prems(1) have "parseLoop text (endIndex m) acc = Some (Inr as)"
        by (subst (asm) parseLoop.simps) simp
      from less.hyps [OF dec this less.prems(2)] show ?thesis .
    next
      case push
      with Some less.prems(1) have "parseLoop text (endIndex m) (acc @ [a]) = Some (Inr as)"
        by (subst (asm) parseLoop.simps) simp
      moreover from processMatch_complete [OF push] less.prems(2)
      have "\<forall>a\<in>set (acc @ [a]). title a \<noteq> [] \<and> summary a \<noteq> [] \<and> source a \<noteq> []"
        by simp
      ultimately show ?thesis by (rule less.hyps [OF dec])
    qed
  qed
qed

text \<open>
  Claim C2, amended.  Every article that parseArticleResponse returns has a title, a summary
  and a source that are not empty.  A fragment that follows well-formed blocks, starts with a
  title label and lacks the summary label or the source label gives no article.
\<close>

theorem emitted_articles_complete:
  "(\<forall>as. parseArticleResponse text = Some (Inr as) \<longrightarrow>
      (\<forall>a\<in>set as. title a \<noteq> [] \<and> summary a \<noteq> [] \<and> source a \<noteq> [])) \<and>
   ((\<forall>b\<in>set bs. wellFormed b) \<and> startsLabel 0x6807 0x9898 frag \<and>
    (\<not> hasLabel 0x6458 0x8981 frag \<or> \<not> hasLabel 0x6765 0x6E90 frag) \<longrightarrow>
      parseArticleResponse (concat (map renderBlock bs) @ frag) = Some (Inr (map articleOf bs)))"
proof (intro conjI allI impI)
  fix as assume "parseArticleResponse text = Some (Inr as)"
  then show "\<forall>a\<in>set as. title a \<noteq> [] \<and> summary a \<noteq> [] \<and> source a \<noteq> []"
    unfolding parseArticleResponse_def by (rule parseLoop_complete) simp
next
  assume h: "(\<forall>b\<in>set bs. wellFormed b) \<and> startsLabel 0x6807 0x9898 frag \<and>
    (\<not> hasLabel 0x6458 0x8981 frag \<or> \<not> hasLabel 0x6765 0x6E90 frag)"
  then have "frag = [] \<or> (\<exists>c u. frag = 0x6807 # 0x9898 # c # u \<and> isColon c)"
    by (cases "(0x6807 :: jschar, 0x9898 :: jschar, frag)" rule: startsLabel.cases) simp_all
  with h parseLoop_blocks [of bs frag 0 "concat (map renderBlock bs) @ frag" "[]"]
  show "parseArticleResponse (concat (map renderBlock bs) @ frag) = Some (Inr (map articleOf bs))"
    unfolding parseArticleResponse_def by simp
qed

theorem emitted_articles_complete_witness:
  "wellFormed blockB \<and> startsLabel 0x6807 0x9898 fragment \<and>
   \<not> hasLabel 0x6765 0x6E90 fragment \<and>
   parseArticleResponse (concat (map renderBlock [blockB]) @ fragment) =
     Some (Inr [\<lparr>title = ascii ''B'',
                  summary = ascii ''line 1'' @ [0x000A] @ ascii ''line 2'',
                  source = ascii ''no link''\<rparr>]) \<and>
   ascii ''B'' \<noteq> [] \<and> ascii ''line 1'' @ [0x000A] @ ascii ''line 2'' \<noteq> [] \<and>
   ascii ''no link'' \<noteq> []"
proof -
  let ?text = "concat (map renderBlock [blockB]) @ fragment"
  let ?b = "\<lparr>title = ascii ''B'', summary = ascii ''line 1'' @ [0x000A] @ ascii ''line 2'',
             source = ascii ''no link''\<rparr>"
  have wf: "\<forall>b\<in>set [blockB]. wellFormed b"
    by (simp add: blockB_def eval_simps)
  have st: "startsLabel 0x6807 0x9898 fragment"
    by (simp add: fragment_def ascii_def isColon_def)
  have nl: "\<not> hasLabel 0x6765 0x6E90 fragment"
    by (simp add: fragment_def ascii_def isColon_def)
  have a: "map articleOf [blockB] = [?b]"
    by (simp add: blockB_def eval_simps)
  note t = emitted_articles_complete [of ?text "[blockB]" fragment]
  from t wf st nl have p: "parseArticleResponse ?text = Some (Inr [?b])"
    unfolding a by blast
  with t have "\<forall>a\<in>set [?b]. title a \<noteq> [] \<and> summary a \<noteq> [] \<and> source a \<noteq> []"
    by blast
  with wf st nl p show ?thesis by simp
qed

text \<open>
  Claim C2 as it is written fails: a block without a source label before the next title label
  is not left out.  The lazy groups run over the next title label up to the first
  source label, so the title of the incomplete block comes back in an article whose summary
  holds the text in between.
\<close>

theorem incomplete_block_counterexample:
  "parseArticleResponse
     ([0x6807, 0x9898] @ ascii '':A'' @ [0x6458, 0x8981] @ ascii '':B'' @
      [0x6807, 0x9898] @ ascii '':C'' @ [0x6458, 0x8981] @ ascii '':D'' @
      [0x6765, 0x6E90] @ ascii '':E'') =
   Some (Inr [\<lparr>title = ascii ''A'',
                summary = ascii ''B'' @ [0x6807, 0x9898] @ ascii '':C'' @ [0x6458, 0x8981] @ ascii '':D'',
                source = ascii ''E''\<rparr>])"
proof -
  have wf: "wellFormed blockMerged"
    by (simp add: blockMerged_def eval_simps)
  have a: "articleOf blockMerged = \<lparr>title = ascii ''A'',
      summary = ascii ''B'' @ [0x6807, 0x9898] @ ascii '':C'' @ [0x6458, 0x8981] @ ascii '':D'',
      source = ascii ''E''\<rparr>"
    by (simp add: blockMerged_def eval_simps)
  have r: "[0x6807, 0x9898] @ ascii '':A'' @ [0x6458, 0x8981] @ ascii '':B'' @
      [0x6807, 0x9898] @ ascii '':C'' @ [0x6458, 0x8981] @ ascii '':D'' @
      [0x6765, 0x6E90] @ ascii '':E'' = renderBlock blockMerged"
    by (simp add: blockMerged_def renderBlock_def ascii_def)
  have "parseLoop (renderBlock blockMerged) 0 [] = Some (Inr ([] @ map articleOf [blockMerged]))"
    by (rule parseLoop_blocks [where frag = "[]"]) (simp_all add: wf)
  with a show ?thesis unfolding r by (simp add: parseArticleResponse_def)
qed

section \<open>The sources without duplicates\<close>

lemma mapSet_keys:
  "map fst (mapSet m k v) = (if k \<in> set (map fst m) then map fst m else map fst m @ [k])"
proof (induction m)
  case Nil
  show ?case by simp
next
  case (Cons p m)
  obtain k' v' where p: "p = (k', v')" by (cases p)
  show ?case
  proof (cases "k' = k")
    case True
    with p show ?thesis by simp
  next
    case False
    with p Cons.IH show ?thesis by (cases "k \<in> set (map fst m)") simp_all
  qed
qed

lemma mapSet_map_of: "map_of (mapSet m k v) = (map_of m)(k \<mapsto> v)"
  by (induction m) (auto simp: fun_eq_iff)

lemma mapSet_new: "k \<notin> set (map fst m) \<Longrightarrow> mapSet m k v = m @ [(k, v)]"
  by (induction m) auto

lemma firstSeen_set: "set (firstSeen xs) = set xs"
  by (induction xs) auto

lemma firstSeen_distinct: "distinct (firstSeen xs)"
  by (induction xs) (auto simp: firstSeen_set)

lemma firstSeen_id: "distinct xs \<Longrightarrow> firstSeen xs = xs"
proof (induction xs)
  case Nil
  show ?case by simp
next
  case (Cons x xs)
  then have "filter (\<lambda>y. y \<noteq> x) xs = xs" by (auto simp: filter_id_conv)
  with Cons show ?case by simp
qed

lemma foldl_mapSet_keys:
  "map fst (foldl (\<lambda>m (k, v). mapSet m k v) m es) =
     map fst m @ filter (\<lambda>k. k \<notin> set (map fst m)) (firstSeen (map fst es))"
proof (induction es arbitrary: m)
  case Nil
  show ?case by simp
next
  case (Cons e es)
  obtain k v where e: "e = (k, v)" by (cases e)
  show ?case
  proof (cases "k \<in> set (map fst m)")
    case True
    then have "map fst (mapSet m k v) = map fst m" by (simp add: mapSet_keys)
    moreover from True have "filter (\<lambda>k'. k' \<notin> set (map fst m)) (filter (\<lambda>y. y \<noteq> k) ks)
        = filter (\<lambda>k'. k' \<notin> set (map fst m)) ks" for ks
      by (induction ks) auto
    ultimately show ?thesis using True Cons.IH [of "mapSet m k v"] by (simp add: e)
  next
    case False
    then have keys: "map fst (mapSet m k v) = map fst m @ [k]" by (simp add: mapSet_keys)
    have "filter (\<lambda>k'. k' \<notin> set (map fst m @ [k])) ks
        = filter (\<lambda>k'. k' \<notin> set (map fst m)) (filter (\<lambda>y. y \<noteq> k) ks)" for ks
      by (induction ks) auto
    with False keys show ?thesis using Cons.IH [of "mapSet m k v"] by (simp add: e)
  qed
qed

lemma foldl_mapSet_map_of:
  "map_of (foldl (\<lambda>m (k, v). mapSet m k v) m es) = map_of m ++ map_of (rev es)"
proof (induction es arbitrary: m)
  case Nil
  show ?case by simp
next
  case (Cons e es)
  obtain k v where e: "e = (k, v)" by (cases e)
  have "map_of (foldl (\<lambda>m (k, v). mapSet m k v) (mapSet m k v) es)
      = map_of (mapSet m k v) ++ map_of (rev es)"
    by (rule Cons.IH)
  also have "\<dots> = (map_of m)(k \<mapsto> v) ++ map_of (rev es)"
    by (simp only: mapSet_map_of)
  also have "\<dots> = map_of m ++ ([k \<mapsto> v] ++ map_of (rev es))"
    by (auto simp: fun_eq_iff map_add_def split: option.splits)
  also have "[k \<mapsto> v] ++ map_of (rev es) = map_of (rev (e # es))"
    by (simp add: e map_add_def fun_eq_iff split: option.splits)
  finally show ?case by (simp add: e)
qed

lemma newMap_keys: "map fst (newMap es) = firstSeen (map fst es)"
  by (simp add: newMap_def foldl_mapSet_keys)

lemma newMap_map_of: "map_of (newMap es) = map_of (rev es)"
  by (simp add: newMap_def foldl_mapSet_map_of)

lemma map_of_rev_last:
  "map_of (rev (map (\<lambda>e. (f e, e)) xs)) k = Some g \<Longrightarrow>
     f g = k \<and> g = last (filter (\<lambda>e. f e = k) xs)"
proof (induction xs rule: rev_induct)
  case Nil
  then show ?case by simp
next
  case (snoc y ys)
  then show ?case by (cases "f y = k") auto
qed

lemma uniqueSources_keys:
  "map groundingSource.uri (uniqueSources srcs) = firstSeen (map groundingSource.uri srcs)"
proof -
  let ?es = "map (\<lambda>item. (groundingSource.uri item, item)) srcs"
  have inv: "\<forall>(k, g)\<in>set (newMap ?es). groundingSource.uri g = k"
  proof -
    have "distinct (map fst (newMap ?es))" by (simp add: newMap_keys firstSeen_distinct)
    then have "\<And>k g. (k, g) \<in> set (newMap ?es) \<Longrightarrow> map_of (newMap ?es) k = Some g" by simp
    then have "\<And>k g. (k, g) \<in> set (newMap ?es) \<Longrightarrow> map_of (rev ?es) k = Some g"
      by (simp add: newMap_map_of)
    then show ?thesis by (auto dest: map_of_rev_last)
  qed
  then have "map groundingSource.uri (map snd (newMap ?es)) = map fst (newMap ?es)"
    by (induction "newMap ?es") auto
  then show ?thesis
    by (simp add: uniqueSources_def mapValues_def newMap_keys comp_def)
qed

lemma uniqueSources_last:
  assumes "g \<in> set (uniqueSources srcs)"
  shows "g = last (filter (\<lambda>e. groundingSource.uri e = groundingSource.uri g) srcs)"
proof -
  let ?es = "map (\<lambda>item. (groundingSource.uri item, item)) srcs"
  from assms obtain k where kg: "(k, g) \<in> set (newMap ?es)"
    by (auto simp: uniqueSources_def mapValues_def)
  have "distinct (map fst (newMap ?es))" by (simp add: newMap_keys firstSeen_distinct)
  with kg have "map_of (newMap ?es) k = Some g" by simp
  then have "map_of (rev ?es) k = Some g" by (simp add: newMap_map_of)
  from map_of_rev_last [OF this] have k: "groundingSource.uri g = k"
    and l: "g = last (filter (\<lambda>e. groundingSource.uri e = k) srcs)" by blast+
  show ?thesis unfolding k by (rule l)
qed

lemma mapToSource_entries: "mapToSource (map entryChunk es) = Inr es"
  by (induction es) (simp_all add: toSource_def entryChunk_def orEmpty_def)

lemma sourcesOf_entries:
  "sourcesOf (map entryChunk es) = Inr (filter (\<lambda>e. groundingSource.uri e \<noteq> []) es)"
  by (simp add: sourcesOf_def mapToSource_entries)

lemma uniqueSourcesOf_entries:
  "uniqueSourcesOf (map entryChunk es) =
     Inr (uniqueSources (filter (\<lambda>e. groundingSource.uri e \<noteq> []) es))"
  by (simp add: uniqueSourcesOf_def sourcesOf_entries)

lemma uniqueSources_distinct_id:
  assumes "distinct (map groundingSource.uri srcs)"
  shows "uniqueSources srcs = srcs"
proof -
  have "distinct (map fst m @ map fst es) \<Longrightarrow> foldl (\<lambda>m (k, v). mapSet m k v) m es = m @ es"
    for m es :: "(jsstring \<times> groundingSource) list"
  proof (induction es arbitrary: m)
    case Nil
    show ?case by simp
  next
    case (Cons e es)
    obtain k v where e: "e = (k, v)" by (cases e)
    from Cons.prems e have new: "k \<notin> set (map fst m)" by auto
    from Cons.prems e have "distinct (map fst (m @ [(k, v)]) @ map fst es)" by auto
    from Cons.IH [OF this] new show ?case by (simp add: e mapSet_new)
  qed
  from this [of "[]" "map (\<lambda>item. (groundingSource.uri item, item)) srcs"] assms
  show ?thesis by (simp add: uniqueSources_def newMap_def mapValues_def comp_def)
qed

lemmas entry_simps = entryFirst_def entrySecond_def entryOther_def entryNoUri_def
  uniqueSources_def newMap_def mapValues_def uniqueSourcesOf_def sourcesOf_def toSource_def
  entryChunk_def
  orEmpty_def ascii_def

text \<open>
  Claim C3, amended.  For every sequence of entries, the sources that
  fetchDigitalEconomyArticles returns have pairwise different uris, none of them empty, in
  the order in which the uris first occur among the entries with a uri; the source of a uri
  is the last entry with that uri, so for a repeated uri the title of its last occurrence is
  kept.
\<close>

theorem dedup_sources:
  "let kept = filter (\<lambda>e. groundingSource.uri e \<noteq> []) es;
       out = uniqueSources kept
   in uniqueSourcesOf (map entryChunk es) = Inr out \<and>
      distinct (map groundingSource.uri out) \<and>
      map groundingSource.uri out = firstSeen (map groundingSource.uri kept) \<and>
      (\<forall>g\<in>set out. groundingSource.uri g \<noteq> [] \<and>
         g = last (filter (\<lambda>e. groundingSource.uri e = groundingSource.uri g) kept))"
proof -
  let ?kept = "filter (\<lambda>e. groundingSource.uri e \<noteq> []) es"
  let ?out = "uniqueSources ?kept"
  have keys: "map groundingSource.uri ?out = firstSeen (map groundingSource.uri ?kept)"
    by (rule uniqueSources_keys)
  then have d: "distinct (map groundingSource.uri ?out)" by (simp add: firstSeen_distinct)
  have "\<forall>g\<in>set ?out. groundingSource.uri g \<noteq> [] \<and>
      g = last (filter (\<lambda>e. groundingSource.uri e = groundingSource.uri g) ?kept)"
  proof (intro ballI conjI)
    fix g assume g: "g \<in> set ?out"
    then have "groundingSource.uri g \<in> set (map groundingSource.uri ?out)" by simp
    then have "groundingSource.uri g \<in> set (map groundingSource.uri ?kept)"
      by (simp only: keys firstSeen_set)
    then show "groundingSource.uri g \<noteq> []" by auto
    from g show "g = last (filter (\<lambda>e. groundingSource.uri e = groundingSource.uri g) ?kept)"
      by (rule uniqueSources_last)
  qed
  with keys d uniqueSourcesOf_entries [of es] show ?thesis
    unfolding Let_def by blast
qed

theorem dedup_sources_witness:
  "uniqueSourcesOf (map entryChunk [entryFirst, entryNoUri, entryOther, entrySecond]) =
     Inr [entrySecond, entryOther] \<and>
   groundingSource.uri entrySecond \<noteq> [] \<and>
   entrySecond =
     last (filter (\<lambda>e. groundingSource.uri e = groundingSource.uri entrySecond)
             (filter (\<lambda>e. groundingSource.uri e \<noteq> [])
                [entryFirst, entryNoUri, entryOther, entrySecond])) \<and>
   groundingSource.uri entryOther \<noteq> [] \<and>
   entryOther =
     last (filter (\<lambda>e. groundingSource.uri e = groundingSource.uri entryOther)
             (filter (\<lambda>e. groundingSource.uri e \<noteq> [])
                [entryFirst, entryNoUri, entryOther, entrySecond]))"
proof -
  have out: "uniqueSources (filter (\<lambda>e. groundingSource.uri e \<noteq> [])
      [entryFirst, entryNoUri, entryOther, entrySecond]) = [entrySecond, entryOther]"
    by (simp add: entry_simps)
  from dedup_sources [of "[entryFirst, entryNoUri, entryOther, entrySecond]"]
  have "uniqueSourcesOf (map entryChunk [entryFirst, entryNoUri, entryOther, entrySecond]) =
      Inr [entrySecond, entryOther] \<and>
    (\<forall>g\<in>set [entrySecond, entryOther]. groundingSource.uri g \<noteq> [] \<and>
      g = last (filter (\<lambda>e. groundingSource.uri e = groundingSource.uri g)
                  (filter (\<lambda>e. groundingSource.uri e \<noteq> [])
                     [entryFirst, entryNoUri, entryOther, entrySecond])))"
    unfolding Let_def out by blast
  then show ?thesis by simp
qed

text \<open>
  Claim C3 as it is written fails: of two entries with the same uri the title of the second
  is kept, not the title of the first.  The constructor of the Map sets the entries one after
  the other, and setting a key that is present replaces its value.
\<close>

theorem first_title_counterexample:
  "uniqueSourcesOf (map entryChunk [entryFirst, entrySecond]) = Inr [entrySecond] \<and>
   groundingSource.title entrySecond = ascii ''second'' \<and>
   groundingSource.title entryFirst = ascii ''first'' \<and> ascii ''first'' \<noteq> ascii ''second''"
  by (simp add: entry_simps)

text \<open>
  Claim C9.  On entries with pairwise different uris, none of them empty, the deduplication
  is the identity: line 138 alone and lines 130 to 138 together return the entries unchanged,
  in order and contents.
\<close>

theorem dedup_unique_unchanged:
  assumes "distinct (map groundingSource.uri es)"
    and "\<forall>e\<in>set es. groundingSource.uri e \<noteq> []"
  shows "uniqueSources es = es \<and> uniqueSourcesOf (map entryChunk es) = Inr es"
proof -
  from assms(2) have "filter (\<lambda>e. groundingSource.uri e \<noteq> []) es = es"
    by (simp add: filter_id_conv)
  with uniqueSources_distinct_id [OF assms(1)] show ?thesis
    by (simp add: uniqueSourcesOf_entries)
qed

theorem dedup_unique_unchanged_witness:
  "distinct (map groundingSource.uri [entryOther, entryFirst]) \<and>
   groundingSource.uri entryOther \<noteq> [] \<and> groundingSource.uri entryFirst \<noteq> [] \<and>
   uniqueSources [entryOther, entryFirst] = [entryOther, entryFirst] \<and>
   uniqueSourcesOf (map entryChunk [entryOther, entryFirst]) = Inr [entryOther, entryFirst]"
proof -
  have d: "distinct (map groundingSource.uri [entryOther, entryFirst])"
    by (simp add: entryOther_def entryFirst_def ascii_def)
  have n: "\<forall>e\<in>set [entryOther, entryFirst]. groundingSource.uri e \<noteq> []"
    by (simp add: entryOther_def entryFirst_def ascii_def)
  from n have "groundingSource.uri entryOther \<noteq> [] \<and> groundingSource.uri entryFirst \<noteq> []"
    by simp
  with dedup_unique_unchanged [OF d n] d show ?thesis by blast
qed

section \<open>The source of an article\<close>


lemma blockSeeAlso_wellFormed: "wellFormed blockSeeAlso"
  by (simp add: blockSeeAlso_def eval_simps)

lemma blockSeeAlso_article:
  "articleOf blockSeeAlso =
     \<lparr>title = ascii ''Paper'', summary = ascii ''About data.'',
       source = ascii ''https://example.com/paper?x=1''\<rparr>"
  by (simp add: blockSeeAlso_def eval_simps)

text \<open>
  Claim C4.  For every match of the pattern, the loop body takes as source the first URL of
  the trimmed third group, or the trimmed group itself when it holds no URL, and pushes the
  article when the three fields are not empty.  The source field of the specification's
  example gives exactly its link.
\<close>

theorem source_is_first_url:
  "(regexExec articleRegex text i = Some m \<longrightarrow>
      processMatch m =
        Inr (let t = trim (groups m ! 0); s = trim (groups m ! 1);
                 src = trim (groups m ! 2);
                 u = (case firstUrl src of Some url \<Rightarrow> url | None \<Rightarrow> src)
             in if t \<noteq> [] \<and> s \<noteq> [] \<and> u \<noteq> []
                then Some \<lparr>title = t, summary = s, source = u\<rparr> else None)) \<and>
   parseArticleResponse (renderBlock blockSeeAlso) =
     Some (Inr [\<lparr>title = ascii ''Paper'', summary = ascii ''About data.'',
                  source = ascii ''https://example.com/paper?x=1''\<rparr>])"
proof
  show "regexExec articleRegex text i = Some m \<longrightarrow>
      processMatch m =
        Inr (let t = trim (groups m ! 0); s = trim (groups m ! 1);
                 src = trim (groups m ! 2);
                 u = (case firstUrl src of Some url \<Rightarrow> url | None \<Rightarrow> src)
             in if t \<noteq> [] \<and> s \<noteq> [] \<and> u \<noteq> []
                then Some \<lparr>title = t, summary = s, source = u\<rparr> else None)"
  proof
    assume "regexExec articleRegex text i = Some m"
    then have "length (groups m) = 3" by (rule regexExec_article)
    from processMatch_three [OF this] show "processMatch m =
        Inr (let t = trim (groups m ! 0); s = trim (groups m ! 1);
                 src = trim (groups m ! 2);
                 u = (case firstUrl src of Some url \<Rightarrow> url | None \<Rightarrow> src)
             in if t \<noteq> [] \<and> s \<noteq> [] \<and> u \<noteq> []
                then Some \<lparr>title = t, summary = s, source = u\<rparr> else None)"
      by (simp add: extractSource_firstUrl Let_def)
  qed
  note wf = blockSeeAlso_wellFormed
  note a = blockSeeAlso_article
  have "parseLoop (renderBlock blockSeeAlso) 0 [] = Some (Inr ([] @ map articleOf [blockSeeAlso]))"
    by (rule parseLoop_blocks [where frag = "[]"]) (simp_all add: wf)
  with a show "parseArticleResponse (renderBlock blockSeeAlso) =
     Some (Inr [\<lparr>title = ascii ''Paper'', summary = ascii ''About data.'',
                  source = ascii ''https://example.com/paper?x=1''\<rparr>])"
    by (simp add: parseArticleResponse_def)
qed

theorem source_is_first_url_witness:
  "regexExec articleRegex (renderBlock blockSeeAlso) 0 =
     Some \<lparr>index = 0, whole = renderBlock blockSeeAlso,
           groups = [titleBody blockSeeAlso, summaryBody blockSeeAlso, sourceBody blockSeeAlso],
           endIndex = length (renderBlock blockSeeAlso)\<rparr> \<and>
   processMatch \<lparr>index = 0, whole = renderBlock blockSeeAlso,
           groups = [titleBody blockSeeAlso, summaryBody blockSeeAlso, sourceBody blockSeeAlso],
           endIndex = length (renderBlock blockSeeAlso)\<rparr> =
     Inr (Some \<lparr>title = ascii ''Paper'', summary = ascii ''About data.'',
                  source = ascii ''https://example.com/paper?x=1''\<rparr>)"
proof -
  note wf = blockSeeAlso_wellFormed
  have ex: "regexExec articleRegex (renderBlock blockSeeAlso) 0 =
     Some \<lparr>index = 0, whole = renderBlock blockSeeAlso,
           groups = [titleBody blockSeeAlso, summaryBody blockSeeAlso, sourceBody blockSeeAlso],
           endIndex = length (renderBlock blockSeeAlso)\<rparr>"
    using regexExec_block [OF wf, of "[]" 0 "renderBlock blockSeeAlso"] by simp
  have ev: "(let t = trim (titleBody blockSeeAlso); s = trim (summaryBody blockSeeAlso);
                 src = trim (sourceBody blockSeeAlso);
                 u = (case firstUrl src of Some url \<Rightarrow> url | None \<Rightarrow> src)
             in if t \<noteq> [] \<and> s \<noteq> [] \<and> u \<noteq> []
                then Some \<lparr>title = t, summary = s, source = u\<rparr> else None) =
            Some \<lparr>title = ascii ''Paper'', summary = ascii ''About data.'',
                  source = ascii ''https://example.com/paper?x=1''\<rparr>"
    by (simp add: blockSeeAlso_def eval_simps)
  from source_is_first_url [of "renderBlock blockSeeAlso" 0] ex
  have "processMatch \<lparr>index = 0, whole = renderBlock blockSeeAlso,
           groups = [titleBody blockSeeAlso, summaryBody blockSeeAlso, sourceBody blockSeeAlso],
           endIndex = length (renderBlock blockSeeAlso)\<rparr> =
        Inr (let t = trim (titleBody blockSeeAlso); s = trim (summaryBody blockSeeAlso);
                 src = trim (sourceBody blockSeeAlso);
                 u = (case firstUrl src of Some url \<Rightarrow> url | None \<Rightarrow> src)
             in if t \<noteq> [] \<and> s \<noteq> [] \<and> u \<noteq> []
                then Some \<lparr>title = t, summary = s, source = u\<rparr> else None)"
    by simp
  with ex ev show ?thesis by simp
qed














section \<open>The translation and the prompt\<close>

lemma translateKeywords_cases:
  "translateKeywords svc keywords =
     (case translateBody svc keywords of Inl err \<Rightarrow> Inr [] | Inr t \<Rightarrow> Inr t)"
  by (simp add: translateKeywords_def tryCatch_def split: sum.splits)

lemma translateKeywords_returns: "\<exists>s. translateKeywords svc keywords = Inr s"
  by (simp add: translateKeywords_cases split: sum.splits)

lemma translateKeywords_caught:
  "translateBody svc keywords = Inl err \<Longrightarrow> translateKeywords svc keywords = Inr []"
  by (simp add: translateKeywords_cases)

lemma translateBody_rejected:
  "svc (translationRequest keywords) = Inl err \<Longrightarrow> translateBody svc keywords = Inl err"
  by (simp add: translateBody_def)

lemma translateBody_no_text:
  "svc (translationRequest keywords) = Inr resp \<Longrightarrow> text' resp = None \<Longrightarrow>
     translateBody svc keywords = Inl TypeError"
  by (simp add: translateBody_def trimOf_def)

lemma buildPrompt_no_topic:
  "subTopic filters = [] \<Longrightarrow>
     buildPrompt e filters = Inr (promptOf [] (startDate e) (endDate e))"
  by (simp add: buildPrompt_def topicFocusInstruction_def)

lemma buildPrompt_topic:
  assumes "subTopic filters \<noteq> []"
    and "translateKeywords (ai e) (subTopic filters) = Inr translated"
  shows "buildPrompt e filters =
     Inr (promptOf (topicFocusPrefix @ subTopic filters @
                    (if translated \<noteq> [] then ascii '', '' @ translated else []) @
                    topicFocusSuffix) (startDate e) (endDate e))"
  using assms by (simp add: buildPrompt_def topicFocusInstruction_def Let_def)

lemma buildPrompt_returns: "\<exists>prompt. buildPrompt e filters = Inr prompt"
proof (cases "subTopic filters = []")
  case True
  then show ?thesis by (simp add: buildPrompt_no_topic)
next
  case False
  from translateKeywords_returns obtain t
    where "translateKeywords (ai e) (subTopic filters) = Inr t" by blast
  from buildPrompt_topic [OF False this] show ?thesis by blast
qed

lemma clauses_present:
  "sublist scopeClause (promptOf topic s e)"
  "sublist contentTypeClause (promptOf topic s e)"
  "sublist languageBalanceClause (promptOf topic s e)"
  "sublist topic (promptOf topic s e)"
  "sublist (timeframeClause s e) (promptOf topic s e)"
  "sublist sortingClause (promptOf topic s e)"
  "sublist outputFormatClause (promptOf topic s e)"
proof -
  have "promptOf topic s e = promptTask @ scopeClause @
      (blankLine @ contentTypeClause @ blankLine @ languageBalanceClause @ blankLine @ topic @
       blankLine @ timeframeClause s e @ blankLine @ sortingClause @ blankLine @
       outputFormatClause)"
    by (simp add: promptOf_def)
  then show "sublist scopeClause (promptOf topic s e)" by (simp only: sublist_appendI)
  have "promptOf topic s e = (promptTask @ scopeClause @ blankLine) @ contentTypeClause @
      (blankLine @ languageBalanceClause @ blankLine @ topic @
       blankLine @ timeframeClause s e @ blankLine @ sortingClause @ blankLine @
       outputFormatClause)"
    by (simp add: promptOf_def)
  then show "sublist contentTypeClause (promptOf topic s e)" by (simp only: sublist_appendI)
  have "promptOf topic s e =
      (promptTask @ scopeClause @ blankLine @ contentTypeClause @ blankLine) @
      languageBalanceClause @
      (blankLine @ topic @ blankLine @ timeframeClause s e @ blankLine @ sortingClause @
       blankLine @ outputFormatClause)"
    by (simp add: promptOf_def)
  then show "sublist languageBalanceClause (promptOf topic s e)"
    by (simp only: sublist_appendI)
  have "promptOf topic s e =
      (promptTask @ scopeClause @ blankLine @ contentTypeClause @ blankLine @
       languageBalanceClause @ blankLine) @ topic @
      (blankLine @ timeframeClause s e @ blankLine @ sortingClause @
       blankLine @ outputFormatClause)"
    by (simp add: promptOf_def)
  then show "sublist topic (promptOf topic s e)" by (simp only: sublist_appendI)
  have "promptOf topic s e =
      (promptTask @ scopeClause @ blankLine @ contentTypeClause @ blankLine @
       languageBalanceClause @ blankLine @ topic @ blankLine) @ timeframeClause s e @
      (blankLine @ sortingClause @ blankLine @ outputFormatClause)"
    by (simp add: promptOf_def)
  then show "sublist (timeframeClause s e) (promptOf topic s e)"
    by (simp only: sublist_appendI)
  have "promptOf topic s e =
      (promptTask @ scopeClause @ blankLine @ contentTypeClause @ blankLine @
       languageBalanceClause @ blankLine @ topic @ blankLine @ timeframeClause s e @
       blankLine) @ sortingClause @ (blankLine @ outputFormatClause)"
    by (simp add: promptOf_def)
  then show "sublist sortingClause (promptOf topic s e)" by (simp only: sublist_appendI)
  have "promptOf topic s e =
      (promptTask @ scopeClause @ blankLine @ contentTypeClause @ blankLine @
       languageBalanceClause @ blankLine @ topic @ blankLine @ timeframeClause s e @
       blankLine @ sortingClause @ blankLine) @ outputFormatClause @ []"
    by (simp add: promptOf_def)
  then show "sublist outputFormatClause (promptOf topic s e)"
    by (simp only: sublist_appendI)
qed

lemma buildPrompt_shape:
  assumes "buildPrompt e filters = Inr prompt"
  obtains topic where "prompt = promptOf topic (startDate e) (endDate e)"
  using assms by (auto simp: buildPrompt_def split: sum.splits)

lemma buildPrompt_clauses:
  assumes "buildPrompt e filters = Inr prompt"
  shows "sublist scopeClause prompt" "sublist contentTypeClause prompt"
    "sublist languageBalanceClause prompt"
    "sublist (timeframePrefix @ startDate e @ timeframeMiddle @ endDate e @ timeframeSuffix)
       prompt"
    "sublist sortingClause prompt" "sublist outputFormatClause prompt"
proof -
  from assms obtain topic where p: "prompt = promptOf topic (startDate e) (endDate e)"
    by (rule buildPrompt_shape)
  show "sublist scopeClause prompt" "sublist contentTypeClause prompt"
    "sublist languageBalanceClause prompt"
    "sublist sortingClause prompt" "sublist outputFormatClause prompt"
    unfolding p by (rule clauses_present)+
  show "sublist (timeframePrefix @ startDate e @ timeframeMiddle @ endDate e @ timeframeSuffix)
       prompt"
    unfolding p timeframeClause_def [symmetric] by (rule clauses_present)
qed

lemma buildPrompt_topic_clause:
  assumes "subTopic filters \<noteq> []"
    and "translateKeywords (ai e) (subTopic filters) = Inr translated"
    and "buildPrompt e filters = Inr prompt"
  shows "sublist (topicFocusPrefix @ subTopic filters @
                  (if translated \<noteq> [] then ascii '', '' @ translated else []) @
                  topicFocusSuffix) prompt"
proof -
  from assms(3) buildPrompt_topic [OF assms(1,2)]
  have "prompt = promptOf (topicFocusPrefix @ subTopic filters @
                    (if translated \<noteq> [] then ascii '', '' @ translated else []) @
                    topicFocusSuffix) (startDate e) (endDate e)" by simp
  then show ?thesis by (simp only: clauses_present(4))
qed

lemma focus_char_fixed:
  "0x805A \<in> set topicFocusPrefix"
  "0x805A \<notin> set promptTask" "0x805A \<notin> set scopeClause" "0x805A \<notin> set contentTypeClause"
  "0x805A \<notin> set languageBalanceClause" "0x805A \<notin> set timeframePrefix"
  "0x805A \<notin> set timeframeMiddle" "0x805A \<notin> set timeframeSuffix"
  "0x805A \<notin> set sortingClause" "0x805A \<notin> set outputFormatClause" "0x805A \<notin> set blankLine"
  by (simp_all add: topicFocusPrefix_def promptTask_def scopeClause_def contentTypeClause_def
      languageBalanceClause_def timeframePrefix_def timeframeMiddle_def timeframeSuffix_def
      sortingClause_def outputFormatClause_def blankLine_def ascii_def)

lemma no_focus_without_topic:
  assumes "\<forall>c\<in>set (s @ e). isDateChar c"
  shows "\<not> sublist topicFocusPrefix (promptOf [] s e)"
proof
  assume "sublist topicFocusPrefix (promptOf [] s e)"
  then have "set topicFocusPrefix \<subseteq> set (promptOf [] s e)" by (rule set_mono_sublist)
  with focus_char_fixed(1) have "0x805A \<in> set (promptOf [] s e)" by blast
  moreover have "\<not> isDateChar 0x805A" by (simp add: isDateChar_def)
  with assms have "0x805A \<notin> set s" "0x805A \<notin> set e" by auto
  ultimately show False
    using focus_char_fixed(2-) by (simp add: promptOf_def timeframeClause_def)
qed

lemma focus_iff_topic:
  assumes "\<forall>c\<in>set (startDate e @ endDate e). isDateChar c"
    and "buildPrompt e filters = Inr prompt"
  shows "sublist topicFocusPrefix prompt \<longleftrightarrow> subTopic filters \<noteq> []"
proof (cases "subTopic filters = []")
  case True
  with assms(2) have "prompt = promptOf [] (startDate e) (endDate e)"
    by (simp add: buildPrompt_no_topic)
  with no_focus_without_topic [OF assms(1)] True show ?thesis by simp
next
  case False
  from translateKeywords_returns obtain t
    where t: "translateKeywords (ai e) (subTopic filters) = Inr t" by blast
  let ?topic = "topicFocusPrefix @ subTopic filters @
      (if t \<noteq> [] then ascii '', '' @ t else []) @ topicFocusSuffix"
  have "sublist topicFocusPrefix ?topic"
    by (rule prefix_imp_sublist) simp
  with buildPrompt_topic_clause [OF False t assms(2)] have "sublist topicFocusPrefix prompt"
    by (blast intro: sublist_order.order.trans)
  with False show ?thesis by simp
qed

lemma topic_translated:
  assumes "subTopic filters \<noteq> []"
  shows "\<exists>translated. translateKeywords (ai e) (subTopic filters) = Inr translated \<and>
         buildPrompt e filters =
           Inr (promptOf (topicFocusPrefix @ subTopic filters @
                          (if translated \<noteq> [] then ascii '', '' @ translated else []) @
                          topicFocusSuffix) (startDate e) (endDate e))"
proof -
  from translateKeywords_returns obtain t
    where t: "translateKeywords (ai e) (subTopic filters) = Inr t" by blast
  from t buildPrompt_topic [OF assms t] show ?thesis by blast
qed

subsection \<open>What can fail after the prompt\<close>

lemma mapToSource_null: "None \<in> set chunks \<Longrightarrow> mapToSource chunks = Inl TypeError"
proof (induction chunks)
  case Nil
  then show ?case by simp
next
  case (Cons c chunks)
  then show ?case by (cases c) (auto simp: toSource_def split: sum.splits)
qed

lemma mapToSource_defined: "None \<notin> set chunks \<Longrightarrow> \<exists>ss. mapToSource chunks = Inr ss"
proof (induction chunks)
  case Nil
  then show ?case by simp
next
  case (Cons c chunks)
  then show ?case by (cases c) (auto simp: toSource_def)
qed

lemma groundingChunksOf_chunks:
  "candidates resp = Some (c # cs) \<Longrightarrow> groundingMetadata c = Some g \<Longrightarrow>
     groundingChunks g = Some chunks \<Longrightarrow> groundingChunksOf resp = chunks"
  by (simp add: groundingChunksOf_def)

lemma uniqueSourcesOf_null:
  "None \<in> set chunks \<Longrightarrow> uniqueSourcesOf chunks = Inl TypeError"
  by (simp add: uniqueSourcesOf_def sourcesOf_def mapToSource_null)

lemma uniqueSourcesOf_defined:
  "None \<notin> set chunks \<Longrightarrow> \<exists>srcs. uniqueSourcesOf chunks = Inr srcs"
  using mapToSource_defined [of chunks] by (auto simp: uniqueSourcesOf_def sourcesOf_def)

lemma fetch_caught:
  "fetchBody e filters = Some (Inl err) \<Longrightarrow>
     fetchDigitalEconomyArticles e filters = Some (Inl (Error fetchFailedMessage))"
  by (simp add: fetchDigitalEconomyArticles_def tryCatch_def)

lemma fetch_rejected:
  assumes "buildPrompt e filters = Inr prompt" and "ai e (articleRequest prompt) = Inl err"
  shows "fetchBody e filters = Some (Inl err)"
  using assms by (simp add: fetchBody_def)

lemma fetch_null_chunk:
  assumes "buildPrompt e filters = Inr prompt" and "ai e (articleRequest prompt) = Inr resp"
    and "None \<in> set (groundingChunksOf resp)"
  shows "fetchBody e filters = Some (Inl TypeError)"
proof -
  from parseLoop_returns obtain as
    where "parseArticleResponse (textOf (text' resp)) = Some (Inr as)"
    unfolding parseArticleResponse_def by blast
  with assms uniqueSourcesOf_null [OF assms(3)] show ?thesis
    by (simp add: fetchBody_def)
qed

lemma fetch_answered:
  assumes "buildPrompt e filters = Inr prompt" and "ai e (articleRequest prompt) = Inr resp"
    and "None \<notin> set (groundingChunksOf resp)"
  shows "\<exists>as srcs. parseArticleResponse (textOf (text' resp)) = Some (Inr as) \<and>
     uniqueSourcesOf (groundingChunksOf resp) = Inr srcs \<and>
     fetchDigitalEconomyArticles e filters = Some (Inr \<lparr>articles = as, sources = srcs\<rparr>)"
proof -
  from parseLoop_returns obtain as
    where "parseArticleResponse (textOf (text' resp)) = Some (Inr as)"
    unfolding parseArticleResponse_def by blast
  moreover from uniqueSourcesOf_defined [OF assms(3)] obtain srcs
    where "uniqueSourcesOf (groundingChunksOf resp) = Inr srcs" by blast
  ultimately show ?thesis using assms(1,2)
    by (simp add: fetchDigitalEconomyArticles_def fetchBody_def tryCatch_def)
qed

lemma fetch_returns: "\<exists>r. fetchDigitalEconomyArticles e filters = Some r"
proof -
  from buildPrompt_returns obtain prompt where bp: "buildPrompt e filters = Inr prompt"
    by blast
  show ?thesis
  proof (cases "ai e (articleRequest prompt)")
    case (Inl err)
    from fetch_caught [OF fetch_rejected [OF bp this]] show ?thesis by blast
  next
    case (Inr resp)
    show ?thesis
    proof (cases "None \<in> set (groundingChunksOf resp)")
      case True
      from fetch_caught [OF fetch_null_chunk [OF bp Inr this]] show ?thesis by blast
    next
      case False
      from fetch_answered [OF bp Inr this] show ?thesis by blast
    qed
  qed
qed

lemma fetch_only_error:
  "fetchDigitalEconomyArticles e filters = Some (Inl err) \<Longrightarrow> err = Error fetchFailedMessage"
  by (auto simp: fetchDigitalEconomyArticles_def tryCatch_def split: option.splits sum.splits)

subsection \<open>The example services\<close>

lemma models_differ: "ascii ''gemini-2.5-pro'' \<noteq> ascii ''gemini-2.5-flash''"
  by (simp add: ascii_def)

lemma groundedResponse_articles:
  "parseArticleResponse (textOf (text' groundedResponse)) =
     Some (Inr (map articleOf [blockA, blockB]))"
proof -
  have "\<forall>b\<in>set [blockA, blockB]. wellFormed b"
    by (simp add: blockA_def blockB_def eval_simps)
  moreover have "\<exists>c u. fragment = 0x6807 # 0x9898 # c # u \<and> isColon c"
    by (simp add: fragment_def ascii_def isColon_def)
  moreover have "\<not> hasLabel 0x6765 0x6E90 fragment"
    by (simp add: fragment_def ascii_def isColon_def)
  ultimately have "parseLoop (concat (map renderBlock [blockA, blockB]) @ fragment) 0 [] =
      Some (Inr ([] @ map articleOf [blockA, blockB]))"
    by (intro parseLoop_blocks) simp_all
  then show ?thesis by (simp add: parseArticleResponse_def groundedResponse_def textOf_def)
qed

lemma groundedResponse_sources:
  "None \<notin> set (groundingChunksOf groundedResponse)"
  "uniqueSourcesOf (groundingChunksOf groundedResponse) = Inr [entrySecond]"
  by (simp_all add: groundedResponse_def groundingChunksOf_def entry_simps)

lemma emptyReply_parts:
  "None \<notin> set (groundingChunksOf emptyReply)"
  "uniqueSourcesOf (groundingChunksOf emptyReply) = Inr []"
  "parseArticleResponse (textOf (text' emptyReply)) = Some (Inr [])"
  by (simp_all add: emptyReply_def groundingChunksOf_def uniqueSourcesOf_def sourcesOf_def
      uniqueSources_def newMap_def mapValues_def textOf_def parseArticleResponse_def
      parseLoop.simps regexExec_def articleRegex_def ascii_def)

lemma nullChunkResponse_null: "None \<in> set (groundingChunksOf nullChunkResponse)"
  by (simp add: nullChunkResponse_def groundingChunksOf_def)

lemma envUp_translation:
  "translateKeywords (ai envUp) (subTopic topicAI) = Inr (ascii ''artificial intelligence'')"
  by (simp add: translateKeywords_cases translateBody_def trimOf_def envUp_def
      translationRequest_def replaceFirst_def regexExec_def finalPeriodRegex_def trim_def
      isWhiteSpace_def ascii_def)

lemma example_dates:
  "\<forall>c\<in>set (ascii ''2024-05-01'' @ ascii ''2024-05-08''). isDateChar c"
  by (simp add: ascii_def isDateChar_def)

subsection \<open>The claims on the translation and the prompt\<close>

text \<open>
  Claim C6.  translateKeywords never raises: it returns a text for every service and every
  keywords, and the empty text on every error of its \<open>try\<close> block, be it the rejection of the
  call (network or service) or the TypeError on a reply without text (parsing).  When the
  translation fails during fetchDigitalEconomyArticles, the prompt that is built and sent as
  the contents of the main request holds clause 4 with the subTopic alone between the
  quotation marks, and when the service answers that request with chunks that are all
  defined, the function returns a result.
\<close>

theorem translateKeywords_never_raises:
  "(\<exists>s. translateKeywords svc keywords = Inr s) \<and>
   (translateBody svc keywords = Inl err \<longrightarrow> translateKeywords svc keywords = Inr []) \<and>
   (svc (translationRequest keywords) = Inl err \<longrightarrow>
      translateBody svc keywords = Inl err \<and> translateKeywords svc keywords = Inr []) \<and>
   (svc (translationRequest keywords) = Inr resp \<and> text' resp = None \<longrightarrow>
      translateBody svc keywords = Inl TypeError \<and> translateKeywords svc keywords = Inr []) \<and>
   (subTopic filters \<noteq> [] \<and> translateBody (ai e) (subTopic filters) = Inl err \<longrightarrow>
      (\<exists>prompt. buildPrompt e filters = Inr prompt \<and>
         prompt = promptOf (topicFocusPrefix @ subTopic filters @ topicFocusSuffix)
                    (startDate e) (endDate e) \<and>
         sublist
           ((ascii ''4.  **'' @ [0x4E3B, 0x9898, 0x805A, 0x7126] @ ascii '' (Topic Focus):** ''
            @ [0x6587, 0x7AE0, 0x5185, 0x5BB9, 0x5FC5, 0x987B, 0x805A, 0x7126, 0x4E8E, 0x4EE5,
            0x4E0B, 0x4E00, 0x4E2A, 0x6216, 0x591A, 0x4E2A, 0x4E3B, 0x9898, 0xFF1A, 0x201C]) @
            subTopic filters @ ([0x201D, 0x3002])) prompt \<and>
         contents (articleRequest prompt) = prompt \<and>
         (\<forall>reply. ai e (articleRequest prompt) = Inr reply \<longrightarrow>
            None \<notin> set (groundingChunksOf reply) \<longrightarrow>
              (\<exists>as srcs. parseArticleResponse (textOf (text' reply)) = Some (Inr as) \<and>
                 uniqueSourcesOf (groundingChunksOf reply) = Inr srcs \<and>
                 fetchDigitalEconomyArticles e filters =
                   Some (Inr \<lparr>articles = as, sources = srcs\<rparr>)))))"
  apply (intro conjI impI)
  subgoal by (rule translateKeywords_returns)
  subgoal by (rule translateKeywords_caught)
  subgoal by (rule translateBody_rejected)
  subgoal by (rule translateKeywords_caught) (rule translateBody_rejected)
  subgoal by (erule conjE) (rule translateBody_no_text)
  subgoal by (erule conjE) (rule translateKeywords_caught, rule translateBody_no_text)
  subgoal
  proof -
    assume h: "subTopic filters \<noteq> [] \<and> translateBody (ai e) (subTopic filters) = Inl err"
    let ?prompt = "promptOf (topicFocusPrefix @ subTopic filters @ topicFocusSuffix)
        (startDate e) (endDate e)"
    from h have tr: "translateKeywords (ai e) (subTopic filters) = Inr []"
      by (simp add: translateKeywords_caught)
    with h buildPrompt_topic [of filters e "[]"]
    have bp: "buildPrompt e filters = Inr ?prompt" by simp
    from h buildPrompt_topic_clause [OF _ tr bp]
    have cl: "sublist (topicFocusPrefix @ subTopic filters @ topicFocusSuffix) ?prompt"
      by simp
    have "\<exists>as srcs. parseArticleResponse (textOf (text' reply)) = Some (Inr as) \<and>
        uniqueSourcesOf (groundingChunksOf reply) = Inr srcs \<and>
        fetchDigitalEconomyArticles e filters = Some (Inr \<lparr>articles = as, sources = srcs\<rparr>)"
      if "ai e (articleRequest ?prompt) = Inr reply" "None \<notin> set (groundingChunksOf reply)"
      for reply
      using bp that by (rule fetch_answered)
    with bp cl show ?thesis
      unfolding topicFocusPrefix_def [symmetric] topicFocusSuffix_def [symmetric]
      by (intro exI [of _ ?prompt]) (simp add: articleRequest_def)
  qed
  done

theorem translateKeywords_never_raises_witness:
  "subTopic topicAI \<noteq> [] \<and>
   ai envTranslationDown (translationRequest (subTopic topicAI)) = Inl (ServiceError 503) \<and>
   translateBody (ai envTranslationDown) (subTopic topicAI) = Inl (ServiceError 503) \<and>
   translateKeywords (ai envTranslationDown) (subTopic topicAI) = Inr [] \<and>
   ai envEmptyReply (translationRequest (subTopic topicAI)) = Inr emptyReply \<and>
   text' emptyReply = None \<and>
   translateBody (ai envEmptyReply) (subTopic topicAI) = Inl TypeError \<and>
   translateKeywords (ai envEmptyReply) (subTopic topicAI) = Inr [] \<and>
   (\<exists>prompt.
      buildPrompt envTranslationDown topicAI = Inr prompt \<and>
      sublist
        ((ascii ''4.  **'' @ [0x4E3B, 0x9898, 0x805A, 0x7126] @ ascii '' (Topic Focus):** ''
            @ [0x6587, 0x7AE0, 0x5185, 0x5BB9, 0x5FC5, 0x987B, 0x805A, 0x7126, 0x4E8E, 0x4EE5,
            0x4E0B, 0x4E00, 0x4E2A, 0x6216, 0x591A, 0x4E2A, 0x4E3B, 0x9898, 0xFF1A, 0x201C]) @
         [0x4EBA, 0x5DE5, 0x667A, 0x80FD] @ ([0x201D, 0x3002])) prompt \<and>
      ai envTranslationDown (articleRequest prompt) = Inr groundedResponse \<and>
      None \<notin> set (groundingChunksOf groundedResponse) \<and>
      fetchDigitalEconomyArticles envTranslationDown topicAI =
        Some (Inr \<lparr>articles = map articleOf [blockA, blockB], sources = [entrySecond]\<rparr>)) \<and>
   (\<exists>prompt.
      buildPrompt envEmptyReply topicAI = Inr prompt \<and>
      ai envEmptyReply (articleRequest prompt) = Inr emptyReply \<and>
      fetchDigitalEconomyArticles envEmptyReply topicAI =
        Some (Inr \<lparr>articles = [], sources = []\<rparr>))"
proof -
  have t: "subTopic topicAI \<noteq> []" by (simp add: topicAI_def)
  have st: "subTopic topicAI = [0x4EBA, 0x5DE5, 0x667A, 0x80FD]" by (simp add: topicAI_def)
  have d: "ai envTranslationDown (translationRequest (subTopic topicAI)) =
      Inl (ServiceError 503)"
    by (simp add: envTranslationDown_def translationRequest_def)
  have u: "ai envTranslationDown (articleRequest p) = Inr groundedResponse" for p
    by (simp add: envTranslationDown_def articleRequest_def models_differ)
  have r: "ai envEmptyReply q = Inr emptyReply" for q
    by (simp add: envEmptyReply_def)
  have nt: "text' emptyReply = None" by (simp add: emptyReply_def)
  note w1 = translateKeywords_never_raises
    [of "ai envTranslationDown" "subTopic topicAI" "ServiceError 503" emptyReply topicAI
        envTranslationDown]
  from w1 d have b1: "translateBody (ai envTranslationDown) (subTopic topicAI) =
      Inl (ServiceError 503)"
    and k1: "translateKeywords (ai envTranslationDown) (subTopic topicAI) = Inr []"
    by blast+
  from w1 t b1 obtain prompt where p1: "buildPrompt envTranslationDown topicAI = Inr prompt"
    and c1: "sublist
        ((ascii ''4.  **'' @ [0x4E3B, 0x9898, 0x805A, 0x7126] @ ascii '' (Topic Focus):** ''
            @ [0x6587, 0x7AE0, 0x5185, 0x5BB9, 0x5FC5, 0x987B, 0x805A, 0x7126, 0x4E8E, 0x4EE5,
            0x4E0B, 0x4E00, 0x4E2A, 0x6216, 0x591A, 0x4E2A, 0x4E3B, 0x9898, 0xFF1A, 0x201C]) @
         subTopic topicAI @ ([0x201D, 0x3002])) prompt"
    and f1: "\<forall>reply. ai envTranslationDown (articleRequest prompt) = Inr reply \<longrightarrow>
      None \<notin> set (groundingChunksOf reply) \<longrightarrow>
        (\<exists>as srcs. parseArticleResponse (textOf (text' reply)) = Some (Inr as) \<and>
           uniqueSourcesOf (groundingChunksOf reply) = Inr srcs \<and>
           fetchDigitalEconomyArticles envTranslationDown topicAI =
             Some (Inr \<lparr>articles = as, sources = srcs\<rparr>))"
    by blast
  from f1 u [of prompt] groundedResponse_sources(1) obtain as srcs
    where "parseArticleResponse (textOf (text' groundedResponse)) = Some (Inr as)"
      and "uniqueSourcesOf (groundingChunksOf groundedResponse) = Inr srcs"
      and "fetchDigitalEconomyArticles envTranslationDown topicAI =
             Some (Inr \<lparr>articles = as, sources = srcs\<rparr>)" by blast
  with groundedResponse_articles groundedResponse_sources(2)
  have r1: "fetchDigitalEconomyArticles envTranslationDown topicAI =
        Some (Inr \<lparr>articles = map articleOf [blockA, blockB], sources = [entrySecond]\<rparr>)"
    by simp
  note w2 = translateKeywords_never_raises
    [of "ai envEmptyReply" "subTopic topicAI" TypeError emptyReply topicAI envEmptyReply]
  from w2 r nt have b2: "translateBody (ai envEmptyReply) (subTopic topicAI) = Inl TypeError"
    and k2: "translateKeywords (ai envEmptyReply) (subTopic topicAI) = Inr []"
    by blast+
  from w2 t b2 obtain prompt2 where p2: "buildPrompt envEmptyReply topicAI = Inr prompt2"
    and f2: "\<forall>reply. ai envEmptyReply (articleRequest prompt2) = Inr reply \<longrightarrow>
      None \<notin> set (groundingChunksOf reply) \<longrightarrow>
        (\<exists>as srcs. parseArticleResponse (textOf (text' reply)) = Some (Inr as) \<and>
           uniqueSourcesOf (groundingChunksOf reply) = Inr srcs \<and>
           fetchDigitalEconomyArticles envEmptyReply topicAI =
             Some (Inr \<lparr>articles = as, sources = srcs\<rparr>))"
    by blast
  from f2 r [of "articleRequest prompt2"] emptyReply_parts(1) obtain as2 srcs2
    where "parseArticleResponse (textOf (text' emptyReply)) = Some (Inr as2)"
      and "uniqueSourcesOf (groundingChunksOf emptyReply) = Inr srcs2"
      and "fetchDigitalEconomyArticles envEmptyReply topicAI =
             Some (Inr \<lparr>articles = as2, sources = srcs2\<rparr>)" by blast
  with emptyReply_parts(2,3)
  have r2: "fetchDigitalEconomyArticles envEmptyReply topicAI =
        Some (Inr \<lparr>articles = [], sources = []\<rparr>)" by simp
  from p1 c1 u [of prompt] groundedResponse_sources(1) r1
  have e1: "\<exists>prompt.
      buildPrompt envTranslationDown topicAI = Inr prompt \<and>
      sublist
        ((ascii ''4.  **'' @ [0x4E3B, 0x9898, 0x805A, 0x7126] @ ascii '' (Topic Focus):** ''
            @ [0x6587, 0x7AE0, 0x5185, 0x5BB9, 0x5FC5, 0x987B, 0x805A, 0x7126, 0x4E8E, 0x4EE5,
            0x4E0B, 0x4E00, 0x4E2A, 0x6216, 0x591A, 0x4E2A, 0x4E3B, 0x9898, 0xFF1A, 0x201C]) @
         [0x4EBA, 0x5DE5, 0x667A, 0x80FD] @ ([0x201D, 0x3002])) prompt \<and>
      ai envTranslationDown (articleRequest prompt) = Inr groundedResponse \<and>
      None \<notin> set (groundingChunksOf groundedResponse) \<and>
      fetchDigitalEconomyArticles envTranslationDown topicAI =
        Some (Inr \<lparr>articles = map articleOf [blockA, blockB], sources = [entrySecond]\<rparr>)"
    unfolding st by blast
  from p2 r [of "articleRequest prompt2"] r2
  have e2: "\<exists>prompt.
      buildPrompt envEmptyReply topicAI = Inr prompt \<and>
      ai envEmptyReply (articleRequest prompt) = Inr emptyReply \<and>
      fetchDigitalEconomyArticles envEmptyReply topicAI =
        Some (Inr \<lparr>articles = [], sources = []\<rparr>)" by blast
  from t d b1 k1 r [of "translationRequest (subTopic topicAI)"] nt b2 k2 e1 e2
  show ?thesis by blast
qed

text \<open>
  Claim C7.  With an empty subTopic the prompt is the template with nothing in the place of
  the topic-focus instruction; with a subTopic that is not empty, the instruction holds the
  subTopic, followed by a comma, a space and the translated keywords when the translation is
  not empty.  When the dates are dates, the head of the instruction occurs in the prompt
  exactly when the subTopic is not empty.  Every prompt holds the texts of the clauses on
  scope, content type and language balance, of the clause on the time frame with the two
  dates in it, and of the clauses on sorting and on the output format.
\<close>

theorem topic_focus_clause:
  "(subTopic filters = [] \<longrightarrow>
      buildPrompt e filters = Inr (promptOf [] (startDate e) (endDate e))) \<and>
   (subTopic filters \<noteq> [] \<longrightarrow>
      (\<exists>translated. translateKeywords (ai e) (subTopic filters) = Inr translated \<and>
         buildPrompt e filters =
           Inr (promptOf (topicFocusPrefix @ subTopic filters @
                          (if translated \<noteq> [] then ascii '', '' @ translated else []) @
                          topicFocusSuffix) (startDate e) (endDate e)))) \<and>
   ((\<forall>c\<in>set (startDate e @ endDate e). isDateChar c) \<longrightarrow>
      buildPrompt e filters = Inr prompt \<longrightarrow>
        (sublist topicFocusPrefix prompt \<longleftrightarrow> subTopic filters \<noteq> [])) \<and>
   (buildPrompt e filters = Inr prompt \<longrightarrow>
      sublist
        (ascii ''1.  **'' @ [0x89C6, 0x89D2, 0x5C42, 0x7EA7] @ ascii '' (Scope):** '' @
         [0x7ED3, 0x679C, 0x5FC5, 0x987B, 0x662F, 0x5B8F, 0x89C2, 0x5C42, 0x9762, 0x7684,
         0x3002, 0x53EA, 0x5173, 0x6CE8, 0x56FD, 0x5BB6, 0x7EA7, 0x653F, 0x7B56, 0x3001,
         0x8DE8, 0x56FD, 0x7814, 0x7A76, 0x6216, 0x91CD, 0x8981, 0x7684, 0x5168, 0x7403,
         0x002F, 0x5168, 0x56FD, 0x6027, 0x884C, 0x4E1A, 0x8D8B, 0x52BF, 0x3002] @ ascii ''**''
         @ [0x4E25, 0x683C, 0x6392, 0x9664] @ ascii ''**'' @ [0x4EFB, 0x4F55, 0x53EA, 0x5173,
         0x6CE8, 0x7279, 0x5B9A, 0x7701, 0x3001, 0x5E02, 0x6216, 0x5730, 0x533A, 0x7684,
         0x5185, 0x5BB9, 0x3002])
        prompt \<and>
      sublist
        (ascii ''2.  **'' @ [0x5185, 0x5BB9, 0x7C7B, 0x578B] @ ascii '' (Content-Type):** '' @
         [0x7ED3, 0x679C] @ ascii ''**'' @ [0x5FC5, 0x987B, 0x4EE5, 0x5B66, 0x672F, 0x8BBA,
         0x6587, 0xFF08, 0x7279, 0x522B, 0x662F] @ ascii ''SCI'' @ [0x6536, 0x5F55, 0x7684,
         0xFF09, 0x548C, 0x6DF1, 0x5EA6, 0x884C, 0x4E1A, 0x62A5, 0x544A, 0x4E3A, 0x4E3B,
         0x4F53] @ ascii ''**'' @ [0x3002, 0x65B0, 0x95FB, 0x6587, 0x7AE0, 0x548C, 0x653F,
         0x5E9C, 0x51FA, 0x7248, 0x7269, 0x53EF, 0x4EE5, 0x4F5C, 0x4E3A, 0x8865, 0x5145,
         0xFF0C, 0x4F46, 0x4E0D, 0x662F, 0x4E3B, 0x8981, 0x90E8, 0x5206, 0x3002])
        prompt \<and>
      sublist
        (ascii ''3.  **'' @ [0x8BED, 0x8A00, 0x5747, 0x8861] @
         ascii '' (Language Balance):** '' @ [0x6700, 0x7EC8, 0x8FD4, 0x56DE, 0x7684, 0x7ED3,
         0x679C, 0x4E2D, 0xFF0C, 0x4E2D, 0x6587, 0x6587, 0x732E, 0x548C, 0x82F1, 0x6587,
         0x6587, 0x732E, 0x7684, 0x6570, 0x91CF] @ ascii ''**'' @ [0x5FC5, 0x987B, 0x5927,
         0x81F4, 0x5404, 0x5360, 0x4E00, 0x534A] @ ascii '' (50/50)**'' @ [0x3002])
        prompt \<and>
      sublist
        ((ascii ''5.  **'' @ [0x65F6, 0x95F4, 0x8303, 0x56F4] @ ascii '' (Timeframe):** '' @
          [0x53D1, 0x5E03, 0x65E5, 0x671F, 0x5FC5, 0x987B, 0x5728, 0x0020]) @
         startDate e @ ([0x0020, 0x548C, 0x0020]) @
         endDate e @ ([0x0020, 0x4E4B, 0x95F4, 0x3002]))
        prompt \<and>
      sublist
        (ascii ''6.  **'' @ [0x6392, 0x5E8F, 0x6807, 0x51C6] @ ascii '' (Sorting):** '' @
         [0x8BF7, 0x6839, 0x636E, 0x6743, 0x5A01, 0x6027, 0x548C, 0x4FE1, 0x606F, 0x91CF,
         0x5BF9, 0x6240, 0x6709, 0x7ED3, 0x679C, 0x8FDB, 0x884C, 0x7EFC, 0x5408, 0x6392,
         0x5E8F, 0xFF0C, 0x5C06, 0x6700, 0x76F8, 0x5173, 0x7684, 0x3001, 0x8D28, 0x91CF,
         0x6700, 0x9AD8, 0x7684, 0x7ED3, 0x679C, 0x653E, 0x5728, 0x6700, 0x524D, 0x9762,
         0x3002])
        prompt \<and>
      sublist
        (ascii ''**'' @ [0x8F93, 0x51FA, 0x683C, 0x5F0F] @ ascii '' (Output Format):**'' @
         [0x000A, 0x8BF7, 0x4E25, 0x683C, 0x6309, 0x7167, 0x4EE5, 0x4E0B, 0x683C, 0x5F0F,
         0x4E3A, 0x6BCF, 0x7BC7, 0x6587, 0x7AE0, 0x6216, 0x8BBA, 0x6587, 0x63D0, 0x4F9B,
         0x4FE1, 0x606F, 0xFF0C, 0x4E0D, 0x8981, 0x6DFB, 0x52A0, 0x4EFB, 0x4F55, 0x4ECB,
         0x7ECD, 0x6027, 0x6587, 0x5B57, 0x3001, 0x7F16, 0x53F7, 0x6216, 0x603B, 0x7ED3,
         0x3002, 0x000A, 0x6807, 0x9898, 0xFF1A, 0x005B, 0x6587, 0x7AE0, 0x6216, 0x8BBA,
         0x6587, 0x7684, 0x5B8C, 0x6574, 0x6807, 0x9898, 0x005D, 0x000A, 0x6458, 0x8981,
         0xFF1A, 0x005B, 0x4E00, 0x6BB5, 0x7B80, 0x6D01, 0x7684, 0x6587, 0x7AE0, 0x6216,
         0x8BBA, 0x6587, 0x6458, 0x8981, 0x005D, 0x000A, 0x6765, 0x6E90, 0xFF1A, 0x005B,
         0x6587, 0x7AE0, 0x6216, 0x8BBA, 0x6587, 0x7684, 0x76F4, 0x63A5, 0x7F51, 0x5740,
         0x005D, 0x000A, 0x000A, 0x6BCF, 0x4E2A, 0x6761, 0x76EE, 0x4E4B, 0x95F4, 0x8BF7,
         0x7528, 0x4E00, 0x4E2A, 0x7A7A, 0x884C, 0x5206, 0x9694, 0x3002, 0x000A])
        prompt) \<and>
   (subTopic filters \<noteq> [] \<longrightarrow>
      translateKeywords (ai e) (subTopic filters) = Inr translated \<longrightarrow>
      buildPrompt e filters = Inr prompt \<longrightarrow>
        sublist
          ((ascii ''4.  **'' @ [0x4E3B, 0x9898, 0x805A, 0x7126] @ ascii '' (Topic Focus):** ''
            @ [0x6587, 0x7AE0, 0x5185, 0x5BB9, 0x5FC5, 0x987B, 0x805A, 0x7126, 0x4E8E, 0x4EE5,
            0x4E0B, 0x4E00, 0x4E2A, 0x6216, 0x591A, 0x4E2A, 0x4E3B, 0x9898, 0xFF1A, 0x201C]) @
           subTopic filters @ (if translated \<noteq> [] then ascii '', '' @ translated else []) @
           ([0x201D, 0x3002]))
          prompt) \<and>
   ((\<forall>c\<in>set (startDate e @ endDate e). isDateChar c) \<longrightarrow>
      buildPrompt e filters = Inr prompt \<longrightarrow>
        (sublist
           (ascii ''4.  **'' @ [0x4E3B, 0x9898, 0x805A, 0x7126] @ ascii '' (Topic Focus):** ''
            @ [0x6587, 0x7AE0, 0x5185, 0x5BB9, 0x5FC5, 0x987B, 0x805A, 0x7126, 0x4E8E, 0x4EE5,
            0x4E0B, 0x4E00, 0x4E2A, 0x6216, 0x591A, 0x4E2A, 0x4E3B, 0x9898, 0xFF1A, 0x201C])
           prompt \<longleftrightarrow>
         subTopic filters \<noteq> []))"
  apply (intro conjI impI)
  subgoal by (rule buildPrompt_no_topic)
  subgoal by (rule topic_translated)
  subgoal by (rule focus_iff_topic)
  subgoal unfolding scopeClause_def [symmetric] by (rule buildPrompt_clauses)
  subgoal unfolding contentTypeClause_def [symmetric] by (rule buildPrompt_clauses)
  subgoal unfolding languageBalanceClause_def [symmetric] by (rule buildPrompt_clauses)
  subgoal
    unfolding timeframePrefix_def [symmetric] timeframeMiddle_def [symmetric]
      timeframeSuffix_def [symmetric]
    by (rule buildPrompt_clauses)
  subgoal unfolding sortingClause_def [symmetric] by (rule buildPrompt_clauses)
  subgoal unfolding outputFormatClause_def [symmetric] by (rule buildPrompt_clauses)
  subgoal
    unfolding topicFocusPrefix_def [symmetric] topicFocusSuffix_def [symmetric]
    by (rule buildPrompt_topic_clause)
  subgoal unfolding topicFocusPrefix_def [symmetric] by (rule focus_iff_topic)
  done

theorem topic_focus_clause_witness:
  "subTopic noTopic = [] \<and>
   list_all isDateChar (startDate envUp @ endDate envUp) \<and>
   buildPrompt envUp noTopic = Inr (promptOf [] (ascii ''2024-05-01'') (ascii ''2024-05-08'')) \<and>
   \<not> sublist
        (ascii ''4.  **'' @ [0x4E3B, 0x9898, 0x805A, 0x7126] @ ascii '' (Topic Focus):** ''
            @ [0x6587, 0x7AE0, 0x5185, 0x5BB9, 0x5FC5, 0x987B, 0x805A, 0x7126, 0x4E8E, 0x4EE5,
            0x4E0B, 0x4E00, 0x4E2A, 0x6216, 0x591A, 0x4E2A, 0x4E3B, 0x9898, 0xFF1A, 0x201C])
        (promptOf [] (ascii ''2024-05-01'') (ascii ''2024-05-08'')) \<and>
   sublist
     (ascii ''1.  **'' @ [0x89C6, 0x89D2, 0x5C42, 0x7EA7] @ ascii '' (Scope):** '' @ [0x7ED3,
      0x679C, 0x5FC5, 0x987B, 0x662F, 0x5B8F, 0x89C2, 0x5C42, 0x9762, 0x7684, 0x3002, 0x53EA,
      0x5173, 0x6CE8, 0x56FD, 0x5BB6, 0x7EA7, 0x653F, 0x7B56, 0x3001, 0x8DE8, 0x56FD, 0x7814,
      0x7A76, 0x6216, 0x91CD, 0x8981, 0x7684, 0x5168, 0x7403, 0x002F, 0x5168, 0x56FD, 0x6027,
      0x884C, 0x4E1A, 0x8D8B, 0x52BF, 0x3002] @ ascii ''**'' @ [0x4E25, 0x683C, 0x6392, 0x9664]
      @ ascii ''**'' @ [0x4EFB, 0x4F55, 0x53EA, 0x5173, 0x6CE8, 0x7279, 0x5B9A, 0x7701, 0x3001,
      0x5E02, 0x6216, 0x5730, 0x533A, 0x7684, 0x5185, 0x5BB9, 0x3002])
     (promptOf [] (ascii ''2024-05-01'') (ascii ''2024-05-08'')) \<and>
   sublist
     (ascii ''2.  **'' @ [0x5185, 0x5BB9, 0x7C7B, 0x578B] @ ascii '' (Content-Type):** '' @
      [0x7ED3, 0x679C] @ ascii ''**'' @ [0x5FC5, 0x987B, 0x4EE5, 0x5B66, 0x672F, 0x8BBA,
      0x6587, 0xFF08, 0x7279, 0x522B, 0x662F] @ ascii ''SCI'' @ [0x6536, 0x5F55, 0x7684,
      0xFF09, 0x548C, 0x6DF1, 0x5EA6, 0x884C, 0x4E1A, 0x62A5, 0x544A, 0x4E3A, 0x4E3B, 0x4F53] @
      ascii ''**'' @ [0x3002, 0x65B0, 0x95FB, 0x6587, 0x7AE0, 0x548C, 0x653F, 0x5E9C, 0x51FA,
      0x7248, 0x7269, 0x53EF, 0x4EE5, 0x4F5C, 0x4E3A, 0x8865, 0x5145, 0xFF0C, 0x4F46, 0x4E0D,
      0x662F, 0x4E3B, 0x8981, 0x90E8, 0x5206, 0x3002])
     (promptOf [] (ascii ''2024-05-01'') (ascii ''2024-05-08'')) \<and>
   sublist
     (ascii ''3.  **'' @ [0x8BED, 0x8A00, 0x5747, 0x8861] @ ascii '' (Language Balance):** ''
      @ [0x6700, 0x7EC8, 0x8FD4, 0x56DE, 0x7684, 0x7ED3, 0x679C, 0x4E2D, 0xFF0C, 0x4E2D,
      0x6587, 0x6587, 0x732E, 0x548C, 0x82F1, 0x6587, 0x6587, 0x732E, 0x7684, 0x6570, 0x91CF] @
      ascii ''**'' @ [0x5FC5, 0x987B, 0x5927, 0x81F4, 0x5404, 0x5360, 0x4E00, 0x534A] @
      ascii '' (50/50)**'' @ [0x3002])
     (promptOf [] (ascii ''2024-05-01'') (ascii ''2024-05-08'')) \<and>
   sublist
     ((ascii ''5.  **'' @ [0x65F6, 0x95F4, 0x8303, 0x56F4] @ ascii '' (Timeframe):** '' @
       [0x53D1, 0x5E03, 0x65E5, 0x671F, 0x5FC5, 0x987B, 0x5728, 0x0020]) @
      ascii ''2024-05-01'' @ ([0x0020, 0x548C, 0x0020]) @
      ascii ''2024-05-08'' @ ([0x0020, 0x4E4B, 0x95F4, 0x3002]))
     (promptOf [] (ascii ''2024-05-01'') (ascii ''2024-05-08'')) \<and>
   sublist
     (ascii ''6.  **'' @ [0x6392, 0x5E8F, 0x6807, 0x51C6] @ ascii '' (Sorting):** '' @
      [0x8BF7, 0x6839, 0x636E, 0x6743, 0x5A01, 0x6027, 0x548C, 0x4FE1, 0x606F, 0x91CF, 0x5BF9,
      0x6240, 0x6709, 0x7ED3, 0x679C, 0x8FDB, 0x884C, 0x7EFC, 0x5408, 0x6392, 0x5E8F, 0xFF0C,
      0x5C06, 0x6700, 0x76F8, 0x5173, 0x7684, 0x3001, 0x8D28, 0x91CF, 0x6700, 0x9AD8, 0x7684,
      0x7ED3, 0x679C, 0x653E, 0x5728, 0x6700, 0x524D, 0x9762, 0x3002])
     (promptOf [] (ascii ''2024-05-01'') (ascii ''2024-05-08'')) \<and>
   sublist
     (ascii ''**'' @ [0x8F93, 0x51FA, 0x683C, 0x5F0F] @ ascii '' (Output Format):**'' @
      [0x000A, 0x8BF7, 0x4E25, 0x683C, 0x6309, 0x7167, 0x4EE5, 0x4E0B, 0x683C, 0x5F0F, 0x4E3A,
      0x6BCF, 0x7BC7, 0x6587, 0x7AE0, 0x6216, 0x8BBA, 0x6587, 0x63D0, 0x4F9B, 0x4FE1, 0x606F,
      0xFF0C, 0x4E0D, 0x8981, 0x6DFB, 0x52A0, 0x4EFB, 0x4F55, 0x4ECB, 0x7ECD, 0x6027, 0x6587,
      0x5B57, 0x3001, 0x7F16, 0x53F7, 0x6216, 0x603B, 0x7ED3, 0x3002, 0x000A, 0x6807, 0x9898,
      0xFF1A, 0x005B, 0x6587, 0x7AE0, 0x6216, 0x8BBA, 0x6587, 0x7684, 0x5B8C, 0x6574, 0x6807,
      0x9898, 0x005D, 0x000A, 0x6458, 0x8981, 0xFF1A, 0x005B, 0x4E00, 0x6BB5, 0x7B80, 0x6D01,
      0x7684, 0x6587, 0x7AE0, 0x6216, 0x8BBA, 0x6587, 0x6458, 0x8981, 0x005D, 0x000A, 0x6765,
      0x6E90, 0xFF1A, 0x005B, 0x6587, 0x7AE0, 0x6216, 0x8BBA, 0x6587, 0x7684, 0x76F4, 0x63A5,
      0x7F51, 0x5740, 0x005D, 0x000A, 0x000A, 0x6BCF, 0x4E2A, 0x6761, 0x76EE, 0x4E4B, 0x95F4,
      0x8BF7, 0x7528, 0x4E00, 0x4E2A, 0x7A7A, 0x884C, 0x5206, 0x9694, 0x3002, 0x000A])
     (promptOf [] (ascii ''2024-05-01'') (ascii ''2024-05-08'')) \<and>
   subTopic topicAI \<noteq> [] \<and>
   translateKeywords (ai envUp) (subTopic topicAI) = Inr (ascii ''artificial intelligence'') \<and>
   buildPrompt envUp topicAI =
     Inr (promptOf (topicFocusPrefix @ [0x4EBA, 0x5DE5, 0x667A, 0x80FD] @
                    ascii '', artificial intelligence'' @ topicFocusSuffix)
            (ascii ''2024-05-01'') (ascii ''2024-05-08'')) \<and>
   sublist
     ((ascii ''4.  **'' @ [0x4E3B, 0x9898, 0x805A, 0x7126] @ ascii '' (Topic Focus):** ''
            @ [0x6587, 0x7AE0, 0x5185, 0x5BB9, 0x5FC5, 0x987B, 0x805A, 0x7126, 0x4E8E, 0x4EE5,
            0x4E0B, 0x4E00, 0x4E2A, 0x6216, 0x591A, 0x4E2A, 0x4E3B, 0x9898, 0xFF1A, 0x201C]) @
      [0x4EBA, 0x5DE5, 0x667A, 0x80FD] @ ascii '', artificial intelligence'' @
      ([0x201D, 0x3002]))
     (promptOf (topicFocusPrefix @ [0x4EBA, 0x5DE5, 0x667A, 0x80FD] @
                ascii '', artificial intelligence'' @ topicFocusSuffix)
        (ascii ''2024-05-01'') (ascii ''2024-05-08''))"
proof -
  let ?p0 = "promptOf [] (ascii ''2024-05-01'') (ascii ''2024-05-08'')"
  let ?p1 = "promptOf (topicFocusPrefix @ [0x4EBA, 0x5DE5, 0x667A, 0x80FD] @
                    ascii '', artificial intelligence'' @ topicFocusSuffix)
            (ascii ''2024-05-01'') (ascii ''2024-05-08'')"
  let ?tr = "ascii ''artificial intelligence''"
  have n: "subTopic noTopic = []" by (simp add: noTopic_def)
  have t: "subTopic topicAI \<noteq> []" by (simp add: topicAI_def)
  have st: "subTopic topicAI = [0x4EBA, 0x5DE5, 0x667A, 0x80FD]" by (simp add: topicAI_def)
  have d: "\<forall>c\<in>set (startDate envUp @ endDate envUp). isDateChar c"
    using example_dates by (simp add: envUp_def)
  have se: "startDate envUp = ascii ''2024-05-01''" "endDate envUp = ascii ''2024-05-08''"
    by (simp_all add: envUp_def)
  have tr: "?tr \<noteq> []" "ascii '', '' @ ?tr = ascii '', artificial intelligence''"
    by (simp_all add: ascii_def)
  note w0 = topic_focus_clause [of noTopic envUp ?p0 ?tr]
  from w0 n have b0: "buildPrompt envUp noTopic = Inr ?p0" unfolding se by blast
  note c0 = w0 [THEN conjunct2, THEN conjunct2, THEN conjunct2, THEN conjunct1, rule_format,
      OF b0, unfolded se]
  from w0 [THEN conjunct2, THEN conjunct2, THEN conjunct2, THEN conjunct2, THEN conjunct2,
      THEN mp, OF d, THEN mp, OF b0] n
  have a0: "\<not> sublist
        (ascii ''4.  **'' @ [0x4E3B, 0x9898, 0x805A, 0x7126] @ ascii '' (Topic Focus):** ''
            @ [0x6587, 0x7AE0, 0x5185, 0x5BB9, 0x5FC5, 0x987B, 0x805A, 0x7126, 0x4E8E, 0x4EE5,
            0x4E0B, 0x4E00, 0x4E2A, 0x6216, 0x591A, 0x4E2A, 0x4E3B, 0x9898, 0xFF1A, 0x201C])
        ?p0" by simp
  note w1 = topic_focus_clause [of topicAI envUp ?p1 ?tr]
  from w1 t obtain tr' where tr': "translateKeywords (ai envUp) (subTopic topicAI) = Inr tr'"
    and b: "buildPrompt envUp topicAI =
      Inr (promptOf (topicFocusPrefix @ subTopic topicAI @
                     (if tr' \<noteq> [] then ascii '', '' @ tr' else []) @ topicFocusSuffix)
             (startDate envUp) (endDate envUp))" by blast
  from tr' envUp_translation have "tr' = ?tr" by simp
  with b tr have b1: "buildPrompt envUp topicAI = Inr ?p1"
    unfolding se st by simp
  from w1 [THEN conjunct2, THEN conjunct2, THEN conjunct2, THEN conjunct2, THEN conjunct1,
      rule_format, OF t envUp_translation b1] tr
  have c1: "sublist
     ((ascii ''4.  **'' @ [0x4E3B, 0x9898, 0x805A, 0x7126] @ ascii '' (Topic Focus):** ''
            @ [0x6587, 0x7AE0, 0x5185, 0x5BB9, 0x5FC5, 0x987B, 0x805A, 0x7126, 0x4E8E, 0x4EE5,
            0x4E0B, 0x4E00, 0x4E2A, 0x6216, 0x591A, 0x4E2A, 0x4E3B, 0x9898, 0xFF1A, 0x201C]) @
      [0x4EBA, 0x5DE5, 0x667A, 0x80FD] @ ascii '', artificial intelligence'' @
      ([0x201D, 0x3002]))
     ?p1" unfolding st by simp
  from d have dl: "list_all isDateChar (startDate envUp @ endDate envUp)"
    by (simp only: list_all_iff)
  show ?thesis
    by (intro conjI n dl b0 a0 c0 [THEN conjunct1]
        c0 [THEN conjunct2, THEN conjunct1]
        c0 [THEN conjunct2, THEN conjunct2, THEN conjunct1]
        c0 [THEN conjunct2, THEN conjunct2, THEN conjunct2, THEN conjunct1]
        c0 [THEN conjunct2, THEN conjunct2, THEN conjunct2, THEN conjunct2, THEN conjunct1]
        c0 [THEN conjunct2, THEN conjunct2, THEN conjunct2, THEN conjunct2, THEN conjunct2]
        t envUp_translation b1 c1)
qed

section \<open>The error contract\<close>

text \<open>
  Claim C8.  Every call of fetchDigitalEconomyArticles returns, and the only error that it
  throws is the error of line 144, with the message of that line: every error that leaves
  the \<open>try\<close> block is replaced by it.  The prompt is always built (a failed translation is
  absorbed).  When the service rejects the main request, and when it answers with a chunk
  that is \<open>null\<close> or \<open>undefined\<close> (the TypeError of line 132), be it read through
  \<open>groundingChunksOf\<close> or found in the grounding metadata of the first candidate, that one
  error is thrown.  When the service answers with chunks that are all defined, the result
  holds the parsed articles, of which there may be none, and the sources without duplicates.
\<close>

theorem fetch_error_contract:
  "(\<exists>r. fetchDigitalEconomyArticles e filters = Some r) \<and>
   (\<forall>err. fetchDigitalEconomyArticles e filters = Some (Inl err) \<longrightarrow>
      err = Error ([0x83B7, 0x53D6, 0x6587, 0x7AE0, 0x5931, 0x8D25, 0x3002] @ ascii ''API '' @
                   [0x53EF, 0x80FD, 0x4E0D, 0x53EF, 0x7528, 0x6216, 0x8BF7, 0x6C42, 0x5931,
                    0x8D25, 0x3002])) \<and>
   (\<forall>err. fetchBody e filters = Some (Inl err) \<longrightarrow>
      fetchDigitalEconomyArticles e filters = Some (Inl (Error fetchFailedMessage))) \<and>
   (\<exists>prompt. buildPrompt e filters = Inr prompt \<and>
      (\<forall>err. ai e (articleRequest prompt) = Inl err \<longrightarrow>
         fetchBody e filters = Some (Inl err) \<and>
         fetchDigitalEconomyArticles e filters = Some (Inl (Error fetchFailedMessage))) \<and>
      (\<forall>reply. ai e (articleRequest prompt) = Inr reply \<longrightarrow>
         (None \<in> set (groundingChunksOf reply) \<longrightarrow>
            fetchBody e filters = Some (Inl TypeError) \<and>
            fetchDigitalEconomyArticles e filters = Some (Inl (Error fetchFailedMessage))) \<and>
         (\<forall>c cs g chunks.
            candidates reply = Some (c # cs) \<and> groundingMetadata c = Some g \<and>
            groundingChunks g = Some chunks \<and> None \<in> set chunks \<longrightarrow>
              fetchBody e filters = Some (Inl TypeError) \<and>
              fetchDigitalEconomyArticles e filters =
                Some (Inl (Error fetchFailedMessage))) \<and>
         (None \<notin> set (groundingChunksOf reply) \<longrightarrow>
            (\<exists>as srcs. parseArticleResponse (textOf (text' reply)) = Some (Inr as) \<and>
               uniqueSourcesOf (groundingChunksOf reply) = Inr srcs \<and>
               fetchDigitalEconomyArticles e filters =
                 Some (Inr \<lparr>articles = as, sources = srcs\<rparr>)))))"
proof -
  from buildPrompt_returns obtain prompt where bp: "buildPrompt e filters = Inr prompt"
    by blast
  have rej: "fetchBody e filters = Some (Inl err) \<and>
      fetchDigitalEconomyArticles e filters = Some (Inl (Error fetchFailedMessage))"
    if "ai e (articleRequest prompt) = Inl err" for err
    using fetch_rejected [OF bp that] by (simp add: fetch_caught)
  have nul: "fetchBody e filters = Some (Inl TypeError) \<and>
      fetchDigitalEconomyArticles e filters = Some (Inl (Error fetchFailedMessage))"
    if "ai e (articleRequest prompt) = Inr reply" "None \<in> set (groundingChunksOf reply)"
    for reply
    using fetch_null_chunk [OF bp that] by (simp add: fetch_caught)
  have nulc: "fetchBody e filters = Some (Inl TypeError) \<and>
      fetchDigitalEconomyArticles e filters = Some (Inl (Error fetchFailedMessage))"
    if "ai e (articleRequest prompt) = Inr reply"
      "candidates reply = Some (c # cs) \<and> groundingMetadata c = Some g \<and>
       groundingChunks g = Some chunks \<and> None \<in> set chunks"
    for reply c cs g chunks
  proof -
    from that(2) have "groundingChunksOf reply = chunks"
      by (simp add: groundingChunksOf_chunks)
    with that show ?thesis by (simp add: nul)
  qed
  have ans: "\<exists>as srcs. parseArticleResponse (textOf (text' reply)) = Some (Inr as) \<and>
      uniqueSourcesOf (groundingChunksOf reply) = Inr srcs \<and>
      fetchDigitalEconomyArticles e filters = Some (Inr \<lparr>articles = as, sources = srcs\<rparr>)"
    if "ai e (articleRequest prompt) = Inr reply" "None \<notin> set (groundingChunksOf reply)"
    for reply
    using bp that by (rule fetch_answered)
  have only: "\<forall>err. fetchDigitalEconomyArticles e filters = Some (Inl err) \<longrightarrow>
      err = Error fetchFailedMessage"
    using fetch_only_error [of e filters] by blast
  have caught: "\<forall>err. fetchBody e filters = Some (Inl err) \<longrightarrow>
      fetchDigitalEconomyArticles e filters = Some (Inl (Error fetchFailedMessage))"
    using fetch_caught [of e filters] by blast
  have replies: "\<forall>reply. ai e (articleRequest prompt) = Inr reply \<longrightarrow>
      (None \<in> set (groundingChunksOf reply) \<longrightarrow>
         fetchBody e filters = Some (Inl TypeError) \<and>
         fetchDigitalEconomyArticles e filters = Some (Inl (Error fetchFailedMessage))) \<and>
      (\<forall>c cs g chunks.
         candidates reply = Some (c # cs) \<and> groundingMetadata c = Some g \<and>
         groundingChunks g = Some chunks \<and> None \<in> set chunks \<longrightarrow>
           fetchBody e filters = Some (Inl TypeError) \<and>
           fetchDigitalEconomyArticles e filters =
             Some (Inl (Error fetchFailedMessage))) \<and>
      (None \<notin> set (groundingChunksOf reply) \<longrightarrow>
         (\<exists>as srcs. parseArticleResponse (textOf (text' reply)) = Some (Inr as) \<and>
            uniqueSourcesOf (groundingChunksOf reply) = Inr srcs \<and>
            fetchDigitalEconomyArticles e filters =
              Some (Inr \<lparr>articles = as, sources = srcs\<rparr>)))"
    using nul nulc ans by (intro allI impI conjI) blast+
  from rej have rejs: "\<forall>err. ai e (articleRequest prompt) = Inl err \<longrightarrow>
      fetchBody e filters = Some (Inl err) \<and>
      fetchDigitalEconomyArticles e filters = Some (Inl (Error fetchFailedMessage))"
    by blast
  show ?thesis
    unfolding fetchFailedMessage_def [symmetric]
    by (intro conjI fetch_returns only caught exI [of _ prompt] bp rejs replies)
qed

theorem fetch_error_contract_witness:
  "(\<exists>prompt. buildPrompt envDown topicAI = Inr prompt \<and>
      ai envDown (articleRequest prompt) = Inl (ServiceError 503)) \<and>
   fetchBody envDown topicAI = Some (Inl (ServiceError 503)) \<and>
   fetchDigitalEconomyArticles envDown topicAI = Some (Inl (Error fetchFailedMessage)) \<and>
   (\<exists>prompt. buildPrompt envNullChunk topicAI = Inr prompt \<and>
      ai envNullChunk (articleRequest prompt) = Inr nullChunkResponse) \<and>
   None \<in> set (groundingChunksOf nullChunkResponse) \<and>
   fetchBody envNullChunk topicAI = Some (Inl TypeError) \<and>
   fetchDigitalEconomyArticles envNullChunk topicAI = Some (Inl (Error fetchFailedMessage)) \<and>
   (\<exists>prompt. buildPrompt envUp topicAI = Inr prompt \<and>
      ai envUp (articleRequest prompt) = Inr groundedResponse) \<and>
   None \<notin> set (groundingChunksOf groundedResponse) \<and>
   fetchDigitalEconomyArticles envUp topicAI =
     Some (Inr \<lparr>articles = map articleOf [blockA, blockB], sources = [entrySecond]\<rparr>) \<and>
   (\<exists>prompt. buildPrompt envEmptyReply topicAI = Inr prompt \<and>
      ai envEmptyReply (articleRequest prompt) = Inr emptyReply) \<and>
   None \<notin> set (groundingChunksOf emptyReply) \<and>
   fetchDigitalEconomyArticles envEmptyReply topicAI =
     Some (Inr \<lparr>articles = [], sources = []\<rparr>)"
proof -
  have down: "ai envDown r = Inl (ServiceError 503)" for r
    by (simp add: envDown_def)
  have nc: "ai envNullChunk (articleRequest p) = Inr nullChunkResponse" for p
    by (simp add: envNullChunk_def articleRequest_def models_differ)
  have up: "ai envUp (articleRequest p) = Inr groundedResponse" for p
    by (simp add: envUp_def articleRequest_def models_differ)
  have er: "ai envEmptyReply r = Inr emptyReply" for r
    by (simp add: envEmptyReply_def)
  from fetch_error_contract [of envDown topicAI] down
  have 1: "(\<exists>prompt. buildPrompt envDown topicAI = Inr prompt \<and>
      ai envDown (articleRequest prompt) = Inl (ServiceError 503)) \<and>
    fetchBody envDown topicAI = Some (Inl (ServiceError 503)) \<and>
    fetchDigitalEconomyArticles envDown topicAI = Some (Inl (Error fetchFailedMessage))"
    by blast
  from fetch_error_contract [of envNullChunk topicAI] nc nullChunkResponse_null
  have 2: "(\<exists>prompt. buildPrompt envNullChunk topicAI = Inr prompt \<and>
      ai envNullChunk (articleRequest prompt) = Inr nullChunkResponse) \<and>
    fetchBody envNullChunk topicAI = Some (Inl TypeError) \<and>
    fetchDigitalEconomyArticles envNullChunk topicAI = Some (Inl (Error fetchFailedMessage))"
    by blast
  from fetch_error_contract [of envUp topicAI] up groundedResponse_sources(1)
  obtain prompt as srcs
    where bp: "buildPrompt envUp topicAI = Inr prompt"
      and "parseArticleResponse (textOf (text' groundedResponse)) = Some (Inr as)"
      and "uniqueSourcesOf (groundingChunksOf groundedResponse) = Inr srcs"
      and "fetchDigitalEconomyArticles envUp topicAI =
        Some (Inr \<lparr>articles = as, sources = srcs\<rparr>)"
    by blast
  with groundedResponse_articles groundedResponse_sources(2) up [of prompt]
  have 3: "(\<exists>prompt. buildPrompt envUp topicAI = Inr prompt \<and>
      ai envUp (articleRequest prompt) = Inr groundedResponse) \<and>
    fetchDigitalEconomyArticles envUp topicAI =
      Some (Inr \<lparr>articles = map articleOf [blockA, blockB], sources = [entrySecond]\<rparr>)"
    by auto
  from fetch_error_contract [of envEmptyReply topicAI] er emptyReply_parts(1)
  obtain prompt' as' srcs'
    where bp': "buildPrompt envEmptyReply topicAI = Inr prompt'"
      and "parseArticleResponse (textOf (text' emptyReply)) = Some (Inr as')"
      and "uniqueSourcesOf (groundingChunksOf emptyReply) = Inr srcs'"
      and "fetchDigitalEconomyArticles envEmptyReply topicAI =
        Some (Inr \<lparr>articles = as', sources = srcs'\<rparr>)"
    by blast
  with emptyReply_parts(2,3) er [of "articleRequest prompt'"]
  have 4: "(\<exists>prompt. buildPrompt envEmptyReply topicAI = Inr prompt \<and>
      ai envEmptyReply (articleRequest prompt) = Inr emptyReply) \<and>
    fetchDigitalEconomyArticles envEmptyReply topicAI =
      Some (Inr \<lparr>articles = [], sources = []\<rparr>)"
    by auto
  from 1 2 3 4 nullChunkResponse_null groundedResponse_sources(1) emptyReply_parts(1)
  show ?thesis by blast
qed

end
